theory Spec2Isabelle
  imports Complex_Main "HOL-Library.Sublist"
begin

section \<open>Common data\<close>

text \<open>
  The sources are Python 2 modules (\<^verbatim>\<open>#!/usr/bin/env python2\<close>, \<^verbatim>\<open>dict.iteritems\<close>,
  only \<^verbatim>\<open>print_function\<close> imported from \<^verbatim>\<open>__future__\<close>).  Python floats are
  idealised as \<^typ>\<open>real\<close> numbers, Python integers are \<^typ>\<open>int\<close>, and every exception
  the modelled code can raise is a value of \<open>py_error\<close>.
\<close>

datatype py_error =
    TypeError | IndexError | AttributeError | KeyError | UnicodeEncodeError

text \<open>\<^verbatim>\<open>class OmbtControllerCommand(Enum)\<close> of \<^verbatim>\<open>ombt_process.py\<close>.\<close>

datatype OmbtControllerCommand = RPC_CALL | RPC_CAST | RPC_FANOUT | NOTIFY | SHUTDOWN

section \<open>Threshold engine (\<^verbatim>\<open>test_smoke_01.py\<close>)\<close>

text \<open>
  \<^verbatim>\<open>THRESHOLD_BASELINE\<close>: a dictionary from the command to a list of eight reference
  values; the shutdown command has no entry, so \<^verbatim>\<open>.get\<close> yields \<^verbatim>\<open>None\<close> for it.
\<close>

definition THRESHOLD_BASELINE :: "OmbtControllerCommand \<Rightarrow> real list option" where
  "THRESHOLD_BASELINE c =
     (case c of
        NOTIFY \<Rightarrow> Some [10.5, 22.0, 5.7, 15.4, 27.1, 24.8, 27.3, 25.0]
      | RPC_CALL \<Rightarrow> Some [15.0, 33.5, 7.2, 13.4, 35.0, 30.4, 35.0, 30.7]
      | RPC_CAST \<Rightarrow> Some [4.0, 4.8, 6.5, 9.9, 38.6, 38.3, 39.0, 38.7]
      | RPC_FANOUT \<Rightarrow> Some [3.1, 4.3, 7.7, 12.8, 38.5, 38, 77.9, 76.8]
      | SHUTDOWN \<Rightarrow> None)"

definition TOLERANCE :: real where
  "TOLERANCE = 30.0"

text \<open>\<^verbatim>\<open>class Metric(Enum)\<close> and the integer \<^verbatim>\<open>.value\<close> of each member.\<close>

datatype Metric = LATENCY_CLIENT | LATENCY_SERVER | TPS_CLIENT | TPS_SERVER

fun Metric_value :: "Metric \<Rightarrow> int" where
  "Metric_value LATENCY_CLIENT = 0"
| "Metric_value LATENCY_SERVER = 2"
| "Metric_value TPS_CLIENT = 4"
| "Metric_value TPS_SERVER = 6"

text \<open>
  The slice \<^verbatim>\<open>xs[i:]\<close>: a negative start counts from the end and is clamped at the
  beginning of the list.
\<close>

definition slice_from :: "'a list \<Rightarrow> int \<Rightarrow> 'a list" where
  "slice_from xs i =
     (if i < 0 then drop (nat (int (length xs) + i)) xs else drop (nat i) xs)"

text \<open>
  \<^verbatim>\<open>calculate_threshold(ombt_controller_command, metric, length)\<close>.  The caller passes
  the integer value of a metric and an integer length, so \<^verbatim>\<open>(length-1024) / 1024\<close> is
  Python 2 integer (floor) division.  Subscripting the \<^verbatim>\<open>None\<close> of a missing command
  is a \<^verbatim>\<open>TypeError\<close>; \<^verbatim>\<open>min_max[1]\<close> on a slice shorter than two is an
  \<^verbatim>\<open>IndexError\<close>.
\<close>

definition calculate_threshold ::
    "OmbtControllerCommand \<Rightarrow> int \<Rightarrow> int \<Rightarrow> py_error + real" where
  "calculate_threshold ombt_controller_command metric len =
     (case THRESHOLD_BASELINE ombt_controller_command of
        None \<Rightarrow> Inl TypeError
      | Some row \<Rightarrow>
          (let orig_min_max = take 2 (slice_from row metric) in
           if metric \<in> set [Metric_value LATENCY_CLIENT, Metric_value LATENCY_SERVER] then
             (let min_max = map (\<lambda>v. v + (v / 100.0 * TOLERANCE)) orig_min_max in
              if length min_max < 2 then Inl IndexError
              else Inr (((min_max ! 1 - min_max ! 0) / (64 - 1))
                          * of_int ((len - 1024) div 1024) + min_max ! 0))
           else
             (let min_max = map (\<lambda>v. v - (v / 100.0 * TOLERANCE)) orig_min_max in
              if length min_max < 2 then Inl IndexError
              else Inr (min_max ! 0 - ((min_max ! 0 - min_max ! 1) / (64 - 1))
                          * of_int ((len - 1024) div 1024)))))"

subsection \<open>The bound as the specification words it\<close>

text \<open>
  The specification's \<open>ExpectedBound\<close>: the two anchors \<open>v0\<close>, \<open>v1\<close> of a command and
  metric, the tolerance applied by metric class, and the linear interpolation between the
  reference lengths \<open>L0 = 1024\<close> and \<open>L1 = 65536\<close>.
\<close>

fun is_latency :: "Metric \<Rightarrow> bool" where
  "is_latency LATENCY_CLIENT = True"
| "is_latency LATENCY_SERVER = True"
| "is_latency TPS_CLIENT = False"
| "is_latency TPS_SERVER = False"

definition anchors :: "OmbtControllerCommand \<Rightarrow> Metric \<Rightarrow> (real \<times> real) option" where
  "anchors c m =
     (case THRESHOLD_BASELINE c of
        None \<Rightarrow> None
      | Some row \<Rightarrow> Some (row ! nat (Metric_value m), row ! nat (Metric_value m + 1)))"

definition tolerance_adjusted :: "Metric \<Rightarrow> real \<Rightarrow> real" where
  "tolerance_adjusted m v =
     (if is_latency m then v * (1 + 30 / 100) else v * (1 - 30 / 100))"

definition ExpectedBound :: "OmbtControllerCommand \<Rightarrow> Metric \<Rightarrow> real \<Rightarrow> real option" where
  "ExpectedBound c m len =
     (case anchors c m of
        None \<Rightarrow> None
      | Some (v0, v1) \<Rightarrow>
          (let v0' = tolerance_adjusted m v0; v1' = tolerance_adjusted m v1 in
           if is_latency m
           then Some (v0' + (v1' - v0') * (len - 1024) / (65536 - 1024))
           else Some (v0' - (v0' - v1') * (len - 1024) / (65536 - 1024))))"

section \<open>Process supervision (\<^verbatim>\<open>process.py\<close>)\<close>

text \<open>
  \<^verbatim>\<open>class Process(subprocess.Popen)\<close>.  The handle keeps the exit status it has seen
  (\<open>returncode\<close>, \<^verbatim>\<open>None\<close> while no exit has been observed).  The operating system is
  a parameter \<open>os\<close>: \<open>os n\<close> is the answer to the \<open>n\<close>-th non-blocking wait on the child,
  \<open>None\<close> while it is alive and the exit status once it has exited.  What the handle does
  to the outside world is recorded in the handle: the number of waits made so far
  (\<open>queries\<close>), the signals sent to the child in order (\<open>sent\<close>), and the seconds spent in
  \<^verbatim>\<open>time.sleep\<close> (\<open>slept\<close>).
\<close>

datatype signal = SIGTERM | SIGKILL

record Process =
  returncode :: "int option"
  queries :: nat
  sent :: "signal list"
  slept :: nat

definition MAX_ATTEMPTS :: nat where
  "MAX_ATTEMPTS = 3"

definition ATTEMPT_DELAY :: nat where
  "ATTEMPT_DELAY = 1"

text \<open>
  \<^verbatim>\<open>Popen.poll\<close> of Python 2: the child is waited for only while no exit status is known.
  \<^verbatim>\<open>Popen.terminate\<close> and \<^verbatim>\<open>Popen.kill\<close> send their signal unconditionally.
\<close>

definition poll :: "(nat \<Rightarrow> int option) \<Rightarrow> 'a Process_scheme \<Rightarrow> 'a Process_scheme" where
  "poll os p =
     (case returncode p of
        Some rc \<Rightarrow> p
      | None \<Rightarrow> p\<lparr>returncode := os (queries p), queries := queries p + 1\<rparr>)"

definition send_signal :: "signal \<Rightarrow> 'a Process_scheme \<Rightarrow> 'a Process_scheme" where
  "send_signal sig p = p\<lparr>sent := sent p @ [sig]\<rparr>"

definition terminate :: "'a Process_scheme \<Rightarrow> 'a Process_scheme" where
  "terminate p = send_signal SIGTERM p"

definition kill :: "'a Process_scheme \<Rightarrow> 'a Process_scheme" where
  "kill p = send_signal SIGKILL p"

text \<open>\<^verbatim>\<open>is_running\<close>: \<^verbatim>\<open>self.poll() is None\<close>, with the handle as updated by the poll.\<close>

definition is_running ::
    "(nat \<Rightarrow> int option) \<Rightarrow> 'a Process_scheme \<Rightarrow> bool \<times> 'a Process_scheme" where
  "is_running os p = (let p' = poll os p in (returncode p' = None, p'))"

text \<open>\<^verbatim>\<open>completed_successfully\<close>: \<^verbatim>\<open>not self.is_running() and self.returncode == 0\<close>.\<close>

definition completed_successfully ::
    "(nat \<Rightarrow> int option) \<Rightarrow> 'a Process_scheme \<Rightarrow> bool \<times> 'a Process_scheme" where
  "completed_successfully os p =
     (let (running, p') = is_running os p in (\<not> running \<and> returncode p' = Some 0, p'))"

text \<open>
  The loop of \<^verbatim>\<open>teardown\<close>:
  \<^verbatim>\<open>while self.is_running() and attempt < self.MAX_ATTEMPTS: attempt += 1; time.sleep(...)\<close>.
  The liveness check comes first in the condition, so it is made on every evaluation.
\<close>

function teardown_loop ::
    "(nat \<Rightarrow> int option) \<Rightarrow> 'a Process_scheme \<Rightarrow> nat \<Rightarrow> 'a Process_scheme" where
  "teardown_loop os p attempt =
     (let (running, p') = is_running os p in
      if running \<and> attempt < MAX_ATTEMPTS
      then teardown_loop os (p'\<lparr>slept := slept p' + ATTEMPT_DELAY\<rparr>) (attempt + 1)
      else p')"
  by pat_completeness auto
termination
  by (relation "measure (\<lambda>(os, p, attempt). MAX_ATTEMPTS - attempt)") auto

declare teardown_loop.simps [simp del]

text \<open>\<^verbatim>\<open>teardown\<close>: the loop, then \<^verbatim>\<open>if self.returncode is None: self.kill()\<close>.\<close>

definition teardown :: "(nat \<Rightarrow> int option) \<Rightarrow> 'a Process_scheme \<Rightarrow> 'a Process_scheme" where
  "teardown os p =
     (let p' = teardown_loop os p 0 in
      if returncode p' = None then kill p' else p')"

text \<open>
  The first \<open>n\<close> liveness checks made on the handle \<open>p\<close> all report a running process:
  the handle knows of no exit and the next \<open>n\<close> waits find the child alive.
\<close>

fun alive_for :: "(nat \<Rightarrow> int option) \<Rightarrow> 'a Process_scheme \<Rightarrow> nat \<Rightarrow> bool" where
  "alive_for os p 0 = True"
| "alive_for os p (Suc n) =
     (alive_for os p n \<and> returncode p = None \<and> os (queries p + n) = None)"

section \<open>The benchmark driver (\<^verbatim>\<open>ombt_process.py\<close>)\<close>

subsection \<open>Results and their parser\<close>

text \<open>\<^verbatim>\<open>class OmbtResults\<close> with its nested \<^verbatim>\<open>OmbtData\<close>.\<close>

record OmbtData =
  throughput :: real
  latency :: real

record OmbtResults =
  ombt_controller_cmd :: OmbtControllerCommand
  error_found :: bool
  error_message :: "string option"
  client_data :: OmbtData
  server_data :: OmbtData

definition OmbtData_init :: OmbtData where
  "OmbtData_init = \<lparr>throughput = 0.0, latency = 0.0\<rparr>"

definition OmbtResults_init :: "OmbtControllerCommand \<Rightarrow> OmbtResults" where
  "OmbtResults_init cmd =
     \<lparr>ombt_controller_cmd = cmd, error_found = False, error_message = None,
      client_data = OmbtData_init, server_data = OmbtData_init\<rparr>"

text \<open>
  The variable \<^verbatim>\<open>ombt_data\<close> of the parser refers to one of the two data objects of the
  result, or to nothing; assigning through it updates that object.
\<close>

datatype ombt_section = Server | Client

fun get_data :: "ombt_section \<Rightarrow> OmbtResults \<Rightarrow> OmbtData" where
  "get_data Server r = server_data r"
| "get_data Client r = client_data r"

fun set_throughput :: "ombt_section \<Rightarrow> real \<Rightarrow> OmbtResults \<Rightarrow> OmbtResults" where
  "set_throughput Server v r = r\<lparr>server_data := (server_data r)\<lparr>throughput := v\<rparr>\<rparr>"
| "set_throughput Client v r = r\<lparr>client_data := (client_data r)\<lparr>throughput := v\<rparr>\<rparr>"

fun set_latency :: "ombt_section \<Rightarrow> real \<Rightarrow> OmbtResults \<Rightarrow> OmbtResults" where
  "set_latency Server v r = r\<lparr>server_data := (server_data r)\<lparr>latency := v\<rparr>\<rparr>"
| "set_latency Client v r = r\<lparr>client_data := (client_data r)\<lparr>latency := v\<rparr>\<rparr>"

text \<open>\<^verbatim>\<open>str.split('\n')\<close> and \<^verbatim>\<open>str.rstrip('\n')\<close>.\<close>

definition newline :: char where
  "newline = CHR 0x0A"

fun split_newline :: "string \<Rightarrow> string list" where
  "split_newline [] = [[]]"
| "split_newline (c # cs) =
     (if c = newline then [] # split_newline cs
      else (case split_newline cs of [] \<Rightarrow> [[c]] | l # ls \<Rightarrow> (c # l) # ls))"

definition rstrip_newline :: "string \<Rightarrow> string" where
  "rstrip_newline l = rev (dropWhile (\<lambda>c. c = newline) (rev l))"

text \<open>
  The regular expressions, matched with \<^verbatim>\<open>re.match\<close> (anchored at the start of the line
  only).  They are applied to lines, which hold no newline, so \<^verbatim>\<open>.\<close> matches every
  character of a line.  \<open>strip_prefix\<close> consumes a literal; \<open>find_sub p s\<close> is what follows
  the first occurrence of the literal \<open>p\<close> in \<open>s\<close>, so that \<^verbatim>\<open>.*p\<close> followed by a pattern
  \<open>e\<close> that accepts any continuation matches exactly when \<open>e\<close> matches what follows the first
  occurrence of \<open>p\<close>.
\<close>

fun strip_prefix :: "string \<Rightarrow> string \<Rightarrow> string option" where
  "strip_prefix [] s = Some s"
| "strip_prefix (p # ps) [] = None"
| "strip_prefix (p # ps) (c # cs) = (if p = c then strip_prefix ps cs else None)"

fun find_sub :: "string \<Rightarrow> string \<Rightarrow> string option" where
  "find_sub p [] = strip_prefix p []"
| "find_sub p (c # cs) =
     (case strip_prefix p (c # cs) of Some r \<Rightarrow> Some r | None \<Rightarrow> find_sub p cs)"

definition is_digit :: "char \<Rightarrow> bool" where
  "is_digit c = (c \<in> set ''0123456789'')"

text \<open>\<^verbatim>\<open>^Error: (.*)\<close>, giving group 1.\<close>

definition match_error :: "string \<Rightarrow> string option" where
  "match_error line = strip_prefix ''Error: '' line"

text \<open>\<^verbatim>\<open>^Aggregated .*Server.* results:\<close> and \<^verbatim>\<open>^Aggregated .*Client.* results:\<close>.\<close>

definition match_header :: "string \<Rightarrow> string \<Rightarrow> bool" where
  "match_header side line =
     (case strip_prefix ''Aggregated '' line of
        None \<Rightarrow> False
      | Some r \<Rightarrow>
          (case find_sub side r of
             None \<Rightarrow> False
           | Some r' \<Rightarrow> find_sub '' results:'' r' \<noteq> None))"

definition match_server_header :: "string \<Rightarrow> bool" where
  "match_server_header line = match_header ''Server'' line"

definition match_client_header :: "string \<Rightarrow> bool" where
  "match_client_header line = match_header ''Client'' line"

text \<open>
  \<^verbatim>\<open>([0-9]+\.[0-9]+)\<close> at the start of a string: the token and what follows it.  Each
  greedy run of digits is followed by a character that is no digit, so no shorter run
  can match.
\<close>

definition match_float :: "string \<Rightarrow> (string \<times> string) option" where
  "match_float s =
     (let d1 = takeWhile is_digit s in
      if d1 = [] then None
      else (case strip_prefix ''.'' (dropWhile is_digit s) of
              None \<Rightarrow> None
            | Some r \<Rightarrow>
                (let d2 = takeWhile is_digit r in
                 if d2 = [] then None
                 else Some (d1 @ ''.'' @ d2, dropWhile is_digit r))))"

text \<open>\<^verbatim>\<open>^Aggregate throughput: ([0-9]+\.[0-9]+) msgs/sec\<close>, giving group 1.\<close>

definition match_throughput :: "string \<Rightarrow> string option" where
  "match_throughput line =
     (case strip_prefix ''Aggregate throughput: '' line of
        None \<Rightarrow> None
      | Some r \<Rightarrow>
          (case match_float r of
             None \<Rightarrow> None
           | Some (tok, r1) \<Rightarrow>
               (case strip_prefix '' msgs/sec'' r1 of None \<Rightarrow> None | Some r2 \<Rightarrow> Some tok)))"

text \<open>
  \<^verbatim>\<open>^Latency [0-9]+ samples \(msecs\): Average ([0-9]+\.[0-9]+) StdDev\<close>, giving group 1.
\<close>

definition match_latency :: "string \<Rightarrow> string option" where
  "match_latency line =
     (case strip_prefix ''Latency '' line of
        None \<Rightarrow> None
      | Some r \<Rightarrow>
          if takeWhile is_digit r = [] then None
          else (case strip_prefix '' samples (msecs): Average '' (dropWhile is_digit r) of
                  None \<Rightarrow> None
                | Some r1 \<Rightarrow>
                    (case match_float r1 of
                       None \<Rightarrow> None
                     | Some (tok, r2) \<Rightarrow>
                         (case strip_prefix '' StdDev'' r2 of
                            None \<Rightarrow> None
                          | Some r3 \<Rightarrow> Some tok))))"

text \<open>
  \<^verbatim>\<open>float(token)\<close> on a token of the shape \<^verbatim>\<open>digits.digits\<close>: the number the decimal
  numeral denotes.
\<close>

definition digit_value :: "char \<Rightarrow> nat" where
  "digit_value c = of_char c - of_char CHR ''0''"

definition digits_value :: "string \<Rightarrow> nat" where
  "digits_value ds = foldl (\<lambda>a c. 10 * a + digit_value c) 0 ds"

definition py_float :: "string \<Rightarrow> real" where
  "py_float tok =
     (let i = takeWhile is_digit tok; f = drop 1 (dropWhile is_digit tok) in
      real (digits_value i) + real (digits_value f) / 10 ^ length f)"

text \<open>
  The section a header line selects, in the order of the \<^verbatim>\<open>if\<close>/\<^verbatim>\<open>elif\<close> chain: a line
  that matches both patterns selects the server section.
\<close>

definition header_of :: "string \<Rightarrow> ombt_section option" where
  "header_of line =
     (if match_server_header line then Some Server
      else if match_client_header line then Some Client
      else None)"

text \<open>
  The body of the loop of \<^verbatim>\<open>from_output\<close> on one line, from the result and the current
  \<^verbatim>\<open>ombt_data\<close> to the next ones.
\<close>

definition from_output_line ::
    "OmbtResults \<times> ombt_section option \<Rightarrow> string \<Rightarrow> OmbtResults \<times> ombt_section option" where
  "from_output_line st line =
     (case st of (results, ombt_data) \<Rightarrow>
        (case match_error line of
           Some msg \<Rightarrow> (results\<lparr>error_found := True, error_message := Some msg\<rparr>, ombt_data)
         | None \<Rightarrow>
             (case (case header_of line of Some sec \<Rightarrow> Some sec | None \<Rightarrow> ombt_data) of
                None \<Rightarrow> (results, None)
              | Some sec \<Rightarrow>
                  (case match_throughput line of
                     Some t \<Rightarrow> (set_throughput sec (py_float t) results, Some sec)
                   | None \<Rightarrow>
                       (case match_latency line of
                          Some l \<Rightarrow> (set_latency sec (py_float l) results, Some sec)
                        | None \<Rightarrow> (results, Some sec))))))"

definition output_lines :: "string \<Rightarrow> string list" where
  "output_lines stdout = map rstrip_newline (split_newline stdout)"

text \<open>\<^verbatim>\<open>OmbtResults.from_output\<close>; \<^verbatim>\<open>None\<close> for an empty text.\<close>

definition from_output :: "OmbtControllerCommand \<Rightarrow> string \<Rightarrow> OmbtResults option" where
  "from_output cmd stdout =
     (if stdout = [] then None
      else Some (fst (foldl from_output_line (OmbtResults_init cmd, None) (output_lines stdout))))"

subsection \<open>Lines of the output, as the specification describes them\<close>

text \<open>
  A non-empty run of decimal digits; the throughput line
  \<^verbatim>\<open>Aggregate throughput: <float> msgs/sec\<close> and the latency line
  \<^verbatim>\<open>Latency <n> samples (msecs): Average <float> StdDev ...\<close> with a given numeric token,
  followed by any text.
\<close>

definition digits :: "string \<Rightarrow> bool" where
  "digits ds = (ds \<noteq> [] \<and> list_all is_digit ds)"

definition throughput_line :: "string \<Rightarrow> string \<Rightarrow> string" where
  "throughput_line tok rest = ''Aggregate throughput: '' @ tok @ '' msgs/sec'' @ rest"

definition latency_line :: "string \<Rightarrow> string \<Rightarrow> string \<Rightarrow> string" where
  "latency_line n tok rest =
     ''Latency '' @ n @ '' samples (msecs): Average '' @ tok @ '' StdDev'' @ rest"

text \<open>The token of the last line of a list that a pattern matches, if there is one.\<close>

fun last_match :: "(string \<Rightarrow> string option) \<Rightarrow> string list \<Rightarrow> string option" where
  "last_match m [] = None"
| "last_match m (l # ls) = (case last_match m ls of Some t \<Rightarrow> Some t | None \<Rightarrow> m l)"

text \<open>The other one of the two sections.\<close>

fun other_section :: "ombt_section \<Rightarrow> ombt_section" where
  "other_section Server = Client"
| "other_section Client = Server"

subsection \<open>The controller process\<close>

text \<open>
  \<^verbatim>\<open>class OmbtController(Process)\<close>: the handle extended with the timed-out flag
  \<^verbatim>\<open>terminated\<close>, the captured output \<^verbatim>\<open>_result\<close> and the command.
\<close>

record OmbtController = Process +
  terminated :: bool
  result :: string
  controller_cmd :: OmbtControllerCommand

text \<open>
  \<^verbatim>\<open>OmbtController._timeout\<close>, the handler of the alarm:
  \<^verbatim>\<open>if self.is_running(): self.terminate(); self.terminated = True\<close>.
\<close>

definition OmbtController_timeout ::
    "(nat \<Rightarrow> int option) \<Rightarrow> OmbtController \<Rightarrow> OmbtController" where
  "OmbtController_timeout os c =
     (let (running, c') = is_running os c in
      if running then (terminate c')\<lparr>terminated := True\<rparr> else c')"

text \<open>\<^verbatim>\<open>OmbtController.get_results\<close>.\<close>

definition get_results :: "OmbtController \<Rightarrow> OmbtResults option" where
  "get_results c =
     (if returncode c \<noteq> Some 0 \<or> terminated c then None
      else from_output (controller_cmd c) (result c))"

section \<open>Sample environments and handles\<close>

text \<open>
  A child that never exits, a child found exited with status \<open>rc\<close> from the \<open>k\<close>-th wait
  on, and handles on which nothing has happened yet.
\<close>

definition never_exits :: "nat \<Rightarrow> int option" where
  "never_exits n = None"

definition exits_after :: "nat \<Rightarrow> int \<Rightarrow> nat \<Rightarrow> int option" where
  "exits_after k rc n = (if n < k then None else Some rc)"

definition fresh_process :: Process where
  "fresh_process = \<lparr>returncode = None, queries = 0, sent = [], slept = 0\<rparr>"

definition fresh_controller :: OmbtController where
  "fresh_controller =
     \<lparr>returncode = None, queries = 0, sent = [], slept = 0,
      terminated = False, result = [], controller_cmd = NOTIFY\<rparr>"

text \<open>
  Two output texts: one with a server and a client section, and one with a client
  section only.
\<close>

definition sample_output :: string where
  "sample_output =
     ''Aggregated RPC Server results:'' @ [newline] @
     ''Aggregate throughput: 27.3 msgs/sec'' @ [newline] @
     ''Latency 100 samples (msecs): Average 5.7 StdDev 0.4'' @ [newline] @
     ''Aggregated RPC Client results:'' @ [newline] @
     ''Aggregate throughput: 27.1 msgs/sec'' @ [newline] @
     ''Latency 100 samples (msecs): Average 10.5 StdDev 1.2''"

definition client_only_output :: string where
  "client_only_output =
     ''Aggregated ... Client results:'' @ [newline] @
     ''Aggregate throughput: 32.5 msgs/sec'' @ [newline] @
     ''Latency 100 samples (msecs): Average 5.2 StdDev 1.1''"

text \<open>
  An output text with a server and a client section whose numeric tokens are floats that
  \<^verbatim>\<open>float\<close> accepts but that are not of the shape \<^verbatim>\<open>digits.digits\<close>.
\<close>

definition float_tokens_output :: string where
  "float_tokens_output =
     ''Aggregated RPC Server results:'' @ [newline] @
     ''Aggregate throughput: 1e3 msgs/sec'' @ [newline] @
     ''Latency 100 samples (msecs): Average .5 StdDev 0.4'' @ [newline] @
     ''Aggregated RPC Client results:'' @ [newline] @
     ''Aggregate throughput: 32 msgs/sec'' @ [newline] @
     ''Latency 100 samples (msecs): Average 5. StdDev 1.2''"

section \<open>Router data (\<^verbatim>\<open>router_data.py\<close>)\<close>

text \<open>
  A decoded JSON document, as \<^verbatim>\<open>json.loads\<close> of Python 2.7 returns it.  The texts are
  unicode strings; they are modelled as strings of characters with code points below 256,
  a character standing for its code point.  An object is the list of the items of the
  dictionary, in the order in which the dictionary lists them (the order in which the
  constructor below receives them as keyword arguments); a dictionary holds a key once,
  and where a list repeats a key the last item counts.
\<close>

datatype jval =
    JNull
  | JBool bool
  | JInt int
  | JFloat real
  | JStr string
  | JArr "jval list"
  | JObj "(string \<times> jval) list"

definition json_member :: "(string \<times> jval) list \<Rightarrow> string \<Rightarrow> jval option" where
  "json_member kvs k = map_of (rev kvs) k"

text \<open>
  An \<^verbatim>\<open>AllocatorInfo\<close> instance is its attribute dictionary \<^verbatim>\<open>__dict__\<close>; the thirteen
  defaults are what the constructor assigns first.
\<close>

type_synonym AllocatorInfo = "string \<Rightarrow> jval option"

definition AllocatorInfo_defaults :: AllocatorInfo where
  "AllocatorInfo_defaults =
     map_of
       [(''heldByThreads'', JInt 0),
        (''typeSize'', JInt 0),
        (''transferBatchSize'', JInt 0),
        (''globalFreeListMax'', JInt 0),
        (''batchesRebalancedToGlobal'', JInt 0),
        (''typeName'', JNull),
        (''batchesRebalancedToThreads'', JInt 0),
        (''totalFreeToHeap'', JInt 0),
        (''localFreeListMax'', JInt 0),
        (''totalAllocFromHeap'', JInt 0),
        (''type'', JNull),
        (''identity'', JNull),
        (''name'', JNull)]"

text \<open>
  \<^verbatim>\<open>setattr(self, key, value)\<close> on an instance of the new-style class
  \<^verbatim>\<open>AllocatorInfo(object)\<close>, for a unicode name and a decoded JSON value.  The name is
  encoded with the default codec first, so a name with a character outside ASCII is a
  \<^verbatim>\<open>UnicodeEncodeError\<close>.  Three names are data descriptors of the class:
  \<^verbatim>\<open>__class__\<close> accepts only a class, which no decoded value is (\<^verbatim>\<open>TypeError\<close>);
  \<^verbatim>\<open>__weakref__\<close> cannot be written (\<^verbatim>\<open>AttributeError\<close>); \<^verbatim>\<open>__dict__\<close> accepts only a
  dictionary (\<^verbatim>\<open>TypeError\<close> otherwise), which then is the attribute dictionary of the
  instance, in place of the one that held the attributes set so far.  Every other name is
  stored in the attribute dictionary.
\<close>

definition ascii_name :: "string \<Rightarrow> bool" where
  "ascii_name key = list_all (\<lambda>c. (of_char c :: nat) < 128) key"

definition setattr :: "AllocatorInfo \<Rightarrow> string \<Rightarrow> jval \<Rightarrow> py_error + AllocatorInfo" where
  "setattr info key val =
     (if \<not> ascii_name key then Inl UnicodeEncodeError
      else if key = ''__class__'' then Inl TypeError
      else if key = ''__weakref__'' then Inl AttributeError
      else if key = ''__dict__'' then
        (case val of JObj d \<Rightarrow> Inr (json_member d) | other \<Rightarrow> Inl TypeError)
      else Inr (info(key \<mapsto> val)))"

text \<open>
  The loop \<^verbatim>\<open>for key, value in kwargs.items(): setattr(self, key, value)\<close>; the first
  exception ends it.
\<close>

fun setattr_items :: "AllocatorInfo \<Rightarrow> (string \<times> jval) list \<Rightarrow> py_error + AllocatorInfo" where
  "setattr_items info [] = Inr info"
| "setattr_items info ((key, val) # rest) =
     (case setattr info key val of
        Inl e \<Rightarrow> Inl e
      | Inr info' \<Rightarrow> setattr_items info' rest)"

text \<open>
  \<^verbatim>\<open>AllocatorInfo(**kwargs)\<close>.  A keyword named \<^verbatim>\<open>self\<close> clashes with the first
  parameter of \<^verbatim>\<open>__init__\<close>, a \<^verbatim>\<open>TypeError\<close> of the call before the body runs.  The body
  sets the thirteen defaults and then every keyword argument.
\<close>

definition AllocatorInfo_init :: "(string \<times> jval) list \<Rightarrow> py_error + AllocatorInfo" where
  "AllocatorInfo_init kwargs =
     (if ''self'' \<in> set (map fst kwargs) then Inl TypeError
      else setattr_items AllocatorInfo_defaults kwargs)"

definition allocator_type :: string where
  "allocator_type = ''org.apache.qpid.dispatch.allocator''"

text \<open>
  One element \<^verbatim>\<open>d\<close> of the list comprehension of \<^verbatim>\<open>from_qdmanage_json_out\<close>:
  \<^verbatim>\<open>d['type']\<close> is a \<^verbatim>\<open>KeyError\<close> on an object without that key and a \<^verbatim>\<open>TypeError\<close> on
  anything that is not an object; an object of another type is skipped.
\<close>

fun from_qdmanage_element :: "jval \<Rightarrow> py_error + AllocatorInfo option" where
  "from_qdmanage_element (JObj d) =
     (case json_member d ''type'' of
        None \<Rightarrow> Inl KeyError
      | Some ty \<Rightarrow>
          if ty = JStr allocator_type
          then (case AllocatorInfo_init d of Inl e \<Rightarrow> Inl e | Inr info \<Rightarrow> Inr (Some info))
          else Inr None)"
| "from_qdmanage_element other = Inl TypeError"

fun from_qdmanage_elements :: "jval list \<Rightarrow> py_error + AllocatorInfo list" where
  "from_qdmanage_elements [] = Inr []"
| "from_qdmanage_elements (d # ds) =
     (case from_qdmanage_element d of
        Inl e \<Rightarrow> Inl e
      | Inr None \<Rightarrow> from_qdmanage_elements ds
      | Inr (Some info) \<Rightarrow>
          (case from_qdmanage_elements ds of Inl e \<Rightarrow> Inl e | Inr infos \<Rightarrow> Inr (info # infos)))"

text \<open>
  \<^verbatim>\<open>AllocatorInfo.from_qdmanage_json_out\<close>, on the decoded document.  Iterating over an
  object yields its keys and over a string its characters, on which \<^verbatim>\<open>d['type']\<close> is a
  \<^verbatim>\<open>TypeError\<close>; the other values are not iterable.
\<close>

fun from_qdmanage_json_out :: "jval \<Rightarrow> py_error + AllocatorInfo list" where
  "from_qdmanage_json_out (JArr ds) = from_qdmanage_elements ds"
| "from_qdmanage_json_out (JObj d) = (if d = [] then Inr [] else Inl TypeError)"
| "from_qdmanage_json_out (JStr s) = (if s = [] then Inr [] else Inl TypeError)"
| "from_qdmanage_json_out other = Inl TypeError"

text \<open>
  \<^verbatim>\<open>AllocatorInfo.THRESHOLDS\<close> in the order of the source; \<^verbatim>\<open>qdr_connection_t\<close> is
  written twice, and the later entry is the one the dictionary keeps.
\<close>

definition THRESHOLDS_items :: "(string \<times> (string \<times> int) list) list" where
  "THRESHOLDS_items =
     [
      (''qd_bitmask_t'', [(''totalAllocFromHeap'', 512), (''heldByThreads'', 512)]),
      (''qd_buffer_t'', [(''totalAllocFromHeap'', 768), (''heldByThreads'', 512)]),
      (''qd_composed_field_t'', [(''totalAllocFromHeap'', 256), (''heldByThreads'', 256)]),
      (''qd_composite_t'', [(''totalAllocFromHeap'', 256), (''heldByThreads'', 256)]),
      (''qd_connection_t'', [(''totalAllocFromHeap'', 128), (''heldByThreads'', 128)]),
      (''qd_connector_t'', [(''totalAllocFromHeap'', 128), (''heldByThreads'', 128)]),
      (''qd_deferred_call_t'', [(''totalAllocFromHeap'', 256), (''heldByThreads'', 256)]),
      (''qd_hash_handle_t'', [(''totalAllocFromHeap'', 512), (''heldByThreads'', 512)]),
      (''qd_hash_item_t'', [(''totalAllocFromHeap'', 512), (''heldByThreads'', 512)]),
      (''qd_iterator_t'', [(''totalAllocFromHeap'', 512), (''heldByThreads'', 512)]),
      (''qd_link_ref_t'', [(''totalAllocFromHeap'', 384), (''heldByThreads'', 256)]),
      (''qd_link_t'', [(''totalAllocFromHeap'', 768), (''heldByThreads'', 768)]),
      (''qd_listener_t'', [(''totalAllocFromHeap'', 128), (''heldByThreads'', 128)]),
      (''qd_log_entry_t'', [(''totalAllocFromHeap'', 2048), (''heldByThreads'', 2048)]),
      (''qd_message_content_t'', [(''totalAllocFromHeap'', 256), (''heldByThreads'', 256)]),
      (''qd_message_t'', [(''totalAllocFromHeap'', 512), (''heldByThreads'', 512)]),
      (''qd_node_t'', [(''totalAllocFromHeap'', 128), (''heldByThreads'', 128)]),
      (''qd_parsed_field_t'', [(''totalAllocFromHeap'', 256), (''heldByThreads'', 256)]),
      (''qd_parsed_turbo_t'', [(''totalAllocFromHeap'', 256), (''heldByThreads'', 256)]),
      (''qd_parse_node_t'', [(''totalAllocFromHeap'', 256), (''heldByThreads'', 256)]),
      (''qdr_action_t'', [(''totalAllocFromHeap'', 512), (''heldByThreads'', 256)]),
      (''qdr_address_config_t'', [(''totalAllocFromHeap'', 128), (''heldByThreads'', 128)]),
      (''qdr_address_t'', [(''totalAllocFromHeap'', 256), (''heldByThreads'', 256)]),
      (''qdr_connection_info_t'', [(''totalAllocFromHeap'', 256), (''heldByThreads'', 256)]),
      (''qdr_connection_t'', [(''totalAllocFromHeap'', 256), (''heldByThreads'', 256)]),
      (''qdr_connection_work_t'', [(''totalAllocFromHeap'', 512), (''heldByThreads'', 512)]),
      (''qdr_delivery_ref_t'', [(''totalAllocFromHeap'', 512), (''heldByThreads'', 512)]),
      (''qdr_delivery_t'', [(''totalAllocFromHeap'', 512), (''heldByThreads'', 512)]),
      (''qdr_connection_t'', [(''totalAllocFromHeap'', 256), (''heldByThreads'', 256)]),
      (''qdr_error_t'', [(''totalAllocFromHeap'', 512), (''heldByThreads'', 512)]),
      (''qdr_field_t'', [(''totalAllocFromHeap'', 512), (''heldByThreads'', 512)]),
      (''qdr_general_work_t'', [(''totalAllocFromHeap'', 512), (''heldByThreads'', 512)]),
      (''qdr_link_ref_t'', [(''totalAllocFromHeap'', 1536), (''heldByThreads'', 1536)]),
      (''qdr_link_t'', [(''totalAllocFromHeap'', 1024), (''heldByThreads'', 1024)]),
      (''qdr_link_work_t'', [(''totalAllocFromHeap'', 512), (''heldByThreads'', 512)]),
      (''qdr_node_t'', [(''totalAllocFromHeap'', 128), (''heldByThreads'', 128)]),
      (''qdr_query_t'', [(''totalAllocFromHeap'', 128), (''heldByThreads'', 128)]),
      (''qdr_terminus_t'', [(''totalAllocFromHeap'', 512), (''heldByThreads'', 512)]),
      (''qd_timer_t'', [(''totalAllocFromHeap'', 256), (''heldByThreads'', 256)]),
      (''qdtm_router_t'', [(''totalAllocFromHeap'', 128), (''heldByThreads'', 128)])]"

definition THRESHOLDS :: "string \<Rightarrow> (string \<times> int) list option" where
  "THRESHOLDS = map_of (rev THRESHOLDS_items)"

text \<open>
  \<^verbatim>\<open>THRESHOLDS.get(self.typeName)\<close>: a list or a dictionary is not hashable
  (\<^verbatim>\<open>TypeError\<close>); every other value that is not one of the keys gives \<^verbatim>\<open>None\<close>.
\<close>

fun THRESHOLDS_get :: "jval \<Rightarrow> py_error + (string \<times> int) list option" where
  "THRESHOLDS_get (JStr name) = Inr (THRESHOLDS name)"
| "THRESHOLDS_get (JArr xs) = Inl TypeError"
| "THRESHOLDS_get (JObj d) = Inl TypeError"
| "THRESHOLDS_get other = Inr None"

text \<open>
  \<^verbatim>\<open>cur > value\<close> of Python 2 against an integer: numbers and booleans compare by value,
  \<^verbatim>\<open>None\<close> is below every number, and a string, list or dictionary is above every number.
\<close>

fun exceeds :: "jval \<Rightarrow> int \<Rightarrow> bool" where
  "exceeds (JInt n) v = (n > v)"
| "exceeds (JFloat x) v = (x > of_int v)"
| "exceeds (JBool b) v = ((if b then 1 else 0) > v)"
| "exceeds JNull v = False"
| "exceeds other v = True"

text \<open>
  The loop of \<^verbatim>\<open>threshold_exceeds_list\<close> over the items of the threshold dictionary, taken
  in the order of the source (the order of \<^verbatim>\<open>iteritems\<close> is that of the hash table).
\<close>

fun exceeds_loop ::
    "AllocatorInfo \<Rightarrow> (string \<times> int) list \<Rightarrow> py_error + (string \<times> jval \<times> int) list" where
  "exceeds_loop info [] = Inr []"
| "exceeds_loop info ((key, val) # rest) =
     (case info key of
        None \<Rightarrow> Inl KeyError
      | Some cur \<Rightarrow>
          (case exceeds_loop info rest of
             Inl e \<Rightarrow> Inl e
           | Inr exceeds_list \<Rightarrow>
               Inr (if exceeds cur val then (key, cur, val) # exceeds_list else exceeds_list)))"

text \<open>
  \<^verbatim>\<open>AllocatorInfo.threshold_exceeds_list\<close>, the function of the class applied to an
  instance: \<^verbatim>\<open>iteritems\<close> on the \<^verbatim>\<open>None\<close> of a missing type name is an
  \<^verbatim>\<open>AttributeError\<close>, and so is \<^verbatim>\<open>self.typeName\<close> on an instance without that
  attribute.
\<close>

definition threshold_exceeds_list ::
    "AllocatorInfo \<Rightarrow> py_error + (string \<times> jval \<times> int) list" where
  "threshold_exceeds_list info =
     (case info ''typeName'' of
        None \<Rightarrow> Inl AttributeError
      | Some name \<Rightarrow>
          (case THRESHOLDS_get name of
             Inl e \<Rightarrow> Inl e
           | Inr None \<Rightarrow> Inl AttributeError
           | Inr (Some threshold) \<Rightarrow> exceeds_loop info threshold))"

text \<open>
  A name that \<^verbatim>\<open>setattr\<close> stores as an ordinary attribute and that is no parameter of
  the constructor: ASCII, and none of \<^verbatim>\<open>self\<close>, \<^verbatim>\<open>__class__\<close>, \<^verbatim>\<open>__dict__\<close> and
  \<^verbatim>\<open>__weakref__\<close>.
\<close>

definition plain_name :: "string \<Rightarrow> bool" where
  "plain_name key =
     (ascii_name key \<and> key \<notin> set [''self'', ''__class__'', ''__dict__'', ''__weakref__''])"


definition sample_allocator :: "string \<Rightarrow> string \<Rightarrow> jval" where
  "sample_allocator ty name =
     JObj [(''type'', JStr ty), (''typeName'', JStr name), (''totalAllocFromHeap'', JInt 10)]"


text \<open>The values that can be looked up in a dictionary, and a sample instance.\<close>

fun hashable :: "jval \<Rightarrow> bool" where
  "hashable (JArr xs) = False"
| "hashable (JObj d) = False"
| "hashable other = True"

definition sample_info :: "string \<Rightarrow> int \<Rightarrow> AllocatorInfo" where
  "sample_info name n =
     AllocatorInfo_defaults(''typeName'' \<mapsto> JStr name, ''totalAllocFromHeap'' \<mapsto> JInt n)"

section \<open>Properties of the threshold engine\<close>

lemma baseline_row:
  assumes "c \<noteq> SHUTDOWN"
  shows "\<exists>a b c' d e f g h. THRESHOLD_BASELINE c = Some [a, b, c', d, e, f, g, h]"
  using assms
  by (cases c; simp only: THRESHOLD_BASELINE_def OmbtControllerCommand.case; blast)

lemma calculate_threshold_row:
  assumes "THRESHOLD_BASELINE c = Some [a, b, c', d, e, f, g, h]"
  shows "calculate_threshold c (Metric_value m) len =
           (case anchors c m of
              None \<Rightarrow> Inl TypeError
            | Some (v0, v1) \<Rightarrow>
                Inr (if is_latency m
                     then tolerance_adjusted m v0
                          + (tolerance_adjusted m v1 - tolerance_adjusted m v0) / 63
                            * of_int ((len - 1024) div 1024)
                     else tolerance_adjusted m v0
                          - (tolerance_adjusted m v0 - tolerance_adjusted m v1) / 63
                            * of_int ((len - 1024) div 1024)))"
  using assms
  by (cases m)
     (simp_all add: calculate_threshold_def anchors_def slice_from_def TOLERANCE_def
        tolerance_adjusted_def numeral_2_eq_2 numeral_3_eq_3 algebra_simps)

lemma anchors_order:
  assumes "c \<noteq> SHUTDOWN"
  shows "\<exists>v0 v1. anchors c m = Some (v0, v1) \<and>
           (if is_latency m then v0 \<le> v1 else v1 \<le> v0)"
proof -
  have "case anchors c m of None \<Rightarrow> False
        | Some (v0, v1) \<Rightarrow> (if is_latency m then v0 \<le> v1 else v1 \<le> v0)"
    using assms
    by (cases c; cases m)
       (simp_all add: anchors_def THRESHOLD_BASELINE_def numeral_2_eq_2 numeral_3_eq_3)
  then show ?thesis by (cases "anchors c m"; cases "is_latency m") auto
qed

lemma step_index_floor:
  "(of_int ((len - 1024) div 1024) :: real) = (of_int (1024 * (len div 1024)) - 1024) / 1024"
proof -
  have "(len - 1024) div 1024 = len div 1024 - 1"
    using div_add_self2 [of 1024 "len - 1024"] by simp
  then show ?thesis by simp
qed

text \<open>
  Claim C1, as amended.  For every command of the baseline table, every metric and every
  length from 1024 to 65536, \<open>calculate_threshold\<close> returns the linear interpolation
  \<open>ExpectedBound\<close> of the specification between the tolerance-adjusted anchors, evaluated
  at the largest multiple of 1024 that is not above the length: the bound of a length
  between two steps is the bound of the lower step.  So at a length that is a multiple of
  1024 the bound is the interpolation at the length itself.  The arithmetic is that of the
  real numbers.
\<close>

theorem calculate_threshold_interpolation_at_lower_step:
  assumes "c \<noteq> SHUTDOWN" and "1024 \<le> len" and "len \<le> 65536"
  shows "\<exists>b. calculate_threshold c (Metric_value m) len = Inr b \<and>
             ExpectedBound c m (of_int (1024 * (len div 1024))) = Some b \<and>
             calculate_threshold c (Metric_value m) (1024 * (len div 1024)) = Inr b \<and>
             (len mod 1024 = 0 \<longrightarrow> ExpectedBound c m (of_int len) = Some b)"
proof -
  from baseline_row [OF assms(1)] obtain a b c' d e f g h
    where row: "THRESHOLD_BASELINE c = Some [a, b, c', d, e, f, g, h]" by blast
  from anchors_order [OF assms(1), of m] obtain v0 v1
    where an: "anchors c m = Some (v0, v1)" by blast
  let ?low = "1024 * (len div 1024)"
  have scale: "x / 63 * ((of_int ?low - 1024) / 1024) = x * (of_int ?low - 1024) / (65536 - 1024)"
    for x :: real by simp
  obtain b where b: "calculate_threshold c (Metric_value m) len = Inr b"
    using calculate_threshold_row [OF row, of m len] an by simp
  have low: "ExpectedBound c m (of_int ?low) = Some b"
    using calculate_threshold_row [OF row, of m len] an b
    by (simp add: ExpectedBound_def Let_def step_index_floor [of len] scale
        del: times_divide_eq_left times_divide_eq_right of_int_mult)
  have idx: "(?low - 1024) div 1024 = (len - 1024) div 1024"
    using div_add_self2 [of 1024 "len - 1024"] div_add_self2 [of 1024 "?low - 1024"] by simp
  have "calculate_threshold c (Metric_value m) ?low = calculate_threshold c (Metric_value m) len"
    by (simp only: calculate_threshold_row [OF row] idx)
  with b have same: "calculate_threshold c (Metric_value m) ?low = Inr b" by simp
  have "len mod 1024 = 0 \<longrightarrow> ExpectedBound c m (of_int len) = Some b"
  proof
    assume "len mod 1024 = 0"
    then have "?low = len" by (simp add: dvd_eq_mod_eq_0)
    with low show "ExpectedBound c m (of_int len) = Some b" by simp
  qed
  with b low same show ?thesis by blast
qed

theorem calculate_threshold_interpolation_at_lower_step_witness:
  "NOTIFY \<noteq> SHUTDOWN \<and> (1024::int) \<le> 2048 \<and> (2048::int) \<le> 65536 \<and> (2048::int) mod 1024 = 0 \<and>
   (\<exists>b. calculate_threshold NOTIFY (Metric_value TPS_SERVER) 2048 = Inr b \<and>
        ExpectedBound NOTIFY TPS_SERVER (of_int 2048) = Some b) \<and>
   (1024::int) \<le> 1536 \<and> (1536::int) \<le> 65536 \<and> 1024 * ((1536::int) div 1024) = 1024 \<and>
   (\<exists>b. calculate_threshold NOTIFY (Metric_value LATENCY_CLIENT) 1536 = Inr b \<and>
        ExpectedBound NOTIFY LATENCY_CLIENT (of_int 1024) = Some b \<and>
        calculate_threshold NOTIFY (Metric_value LATENCY_CLIENT) 1024 = Inr b)"
  using calculate_threshold_interpolation_at_lower_step [of NOTIFY 2048 TPS_SERVER]
    calculate_threshold_interpolation_at_lower_step [of NOTIFY 1536 LATENCY_CLIENT]
  by auto

text \<open>
  Claim C1 as stated fails between two steps: the integer division
  \<^verbatim>\<open>(length-1024) / 1024\<close> rounds down, so at length 1536 the bound of the client latency
  of \<^verbatim>\<open>notify\<close> is still the first anchor, not the interpolated value.
\<close>

theorem calculate_threshold_between_steps_counterexample:
  "(1024::int) \<le> 1536 \<and> (1536::int) \<le> 65536 \<and>
   calculate_threshold NOTIFY (Metric_value LATENCY_CLIENT) 1536 = Inr (273 / 20) \<and>
   ExpectedBound NOTIFY LATENCY_CLIENT (of_int 1536) = Some (34697 / 2520) \<and>
   (273 / 20 :: real) \<noteq> 34697 / 2520"
  by (simp add: calculate_threshold_def ExpectedBound_def anchors_def THRESHOLD_BASELINE_def
      slice_from_def TOLERANCE_def tolerance_adjusted_def)

text \<open>
  Claim C8.  For every command of the baseline table and every metric, the bound is
  monotonic in the length over the range from 1024 to 65536: non-decreasing for the
  latency metrics, non-increasing for the throughput metrics; and at length 1024 it is
  the tolerance-adjusted first anchor.
\<close>

theorem calculate_threshold_monotonic:
  assumes "c \<noteq> SHUTDOWN" and "1024 \<le> l1" and "l1 \<le> l2" and "l2 \<le> 65536"
  shows "\<exists>b1 b2 v0 v1.
           calculate_threshold c (Metric_value m) l1 = Inr b1 \<and>
           calculate_threshold c (Metric_value m) l2 = Inr b2 \<and>
           (if is_latency m then b1 \<le> b2 else b2 \<le> b1) \<and>
           anchors c m = Some (v0, v1) \<and>
           calculate_threshold c (Metric_value m) 1024 = Inr (tolerance_adjusted m v0)"
proof -
  from baseline_row [OF assms(1)] obtain a b c' d e f g h
    where row: "THRESHOLD_BASELINE c = Some [a, b, c', d, e, f, g, h]" by blast
  from anchors_order [OF assms(1), of m] obtain v0 v1
    where an: "anchors c m = Some (v0, v1)"
      and ord: "if is_latency m then v0 \<le> v1 else v1 \<le> v0" by blast
  have k: "(of_int ((l1 - 1024) div 1024) :: real) \<le> of_int ((l2 - 1024) div 1024)"
    using assms(3) by (simp add: zdiv_mono1)
  show ?thesis
  proof (cases "is_latency m")
    case True
    with ord have "0 \<le> (tolerance_adjusted m v1 - tolerance_adjusted m v0) / 63"
      by (simp add: tolerance_adjusted_def)
    from mult_left_mono [OF k this] show ?thesis
      using True an calculate_threshold_row [OF row, of m] by simp
  next
    case False
    with ord have "0 \<le> (tolerance_adjusted m v0 - tolerance_adjusted m v1) / 63"
      by (simp add: tolerance_adjusted_def)
    from mult_left_mono [OF k this] show ?thesis
      using False an calculate_threshold_row [OF row, of m] by simp
  qed
qed

theorem calculate_threshold_monotonic_witness:
  "RPC_FANOUT \<noteq> SHUTDOWN \<and> (1024::int) \<le> 1500 \<and> (1500::int) \<le> 40000 \<and> (40000::int) \<le> 65536 \<and>
   (\<exists>b1 b2 v0 v1.
           calculate_threshold RPC_FANOUT (Metric_value TPS_CLIENT) 1500 = Inr b1 \<and>
           calculate_threshold RPC_FANOUT (Metric_value TPS_CLIENT) 40000 = Inr b2 \<and>
           (if is_latency TPS_CLIENT then b1 \<le> b2 else b2 \<le> b1) \<and>
           anchors RPC_FANOUT TPS_CLIENT = Some (v0, v1) \<and>
           calculate_threshold RPC_FANOUT (Metric_value TPS_CLIENT) 1024 = Inr (tolerance_adjusted TPS_CLIENT v0))"
  using calculate_threshold_monotonic [of RPC_FANOUT 1500 40000 TPS_CLIENT] by simp

section \<open>Properties of the process supervision\<close>

lemma alive_for_peel:
  assumes "returncode p' = None" and "queries p' = queries p + 1"
  shows "alive_for os p (Suc n) =
           (returncode p = None \<and> os (queries p) = None \<and> alive_for os p' n)"
  using assms by (induction n) auto

lemma alive_for_Suc_D: "alive_for os p (Suc n) \<Longrightarrow> alive_for os p n"
  by simp

lemma alive_for_known_exit: "returncode p = Some rc \<Longrightarrow> alive_for os p n = (n = 0)"
  by (cases n) simp_all

lemma teardown_loop_known_exit:
  "returncode p = Some rc \<Longrightarrow> teardown_loop os p a = p"
  by (subst teardown_loop.simps) (simp add: is_running_def poll_def)

lemma teardown_loop_unfold:
  "teardown_loop os p a =
     (if returncode (poll os p) = None \<and> a < 3
      then teardown_loop os ((poll os p)\<lparr>slept := slept (poll os p) + 1\<rparr>) (a + 1)
      else poll os p)"
  by (subst teardown_loop.simps)
     (simp add: is_running_def Let_def MAX_ATTEMPTS_def ATTEMPT_DELAY_def)

lemma teardown_loop_sent: "sent (teardown_loop os p a) = sent p"
proof (induction os p a rule: teardown_loop.induct)
  case (1 os p attempt)
  show ?case
  proof (cases "returncode (poll os p) = None \<and> attempt < 3")
    case True
    then have "sent (teardown_loop os p attempt) =
        sent (teardown_loop os ((poll os p)\<lparr>slept := slept (poll os p) + ATTEMPT_DELAY\<rparr>) (attempt + 1))"
      by (subst teardown_loop_unfold) (simp add: ATTEMPT_DELAY_def)
    also have "\<dots> = sent ((poll os p)\<lparr>slept := slept (poll os p) + ATTEMPT_DELAY\<rparr>)"
      using True by (intro "1.IH") (simp_all add: is_running_def MAX_ATTEMPTS_def)
    also have "\<dots> = sent p"
      by (simp add: poll_def split: option.splits)
    finally show ?thesis .
  next
    case False
    then show ?thesis
      by (subst teardown_loop_unfold) (auto simp add: poll_def split: option.splits)
  qed
qed

lemma teardown_loop_alive:
  "a \<le> 3 \<Longrightarrow> (returncode (teardown_loop os p a) = None) = alive_for os p (4 - a)"
proof (induction os p a rule: teardown_loop.induct)
  case (1 os p attempt)
  have four: "4 - attempt = Suc (3 - attempt)" using "1.prems" by simp
  show ?case
  proof (cases "returncode p")
    case (Some rc)
    then show ?thesis
      by (simp add: teardown_loop_known_exit alive_for_known_exit four)
  next
    case None
    let ?p' = "(poll os p)\<lparr>slept := slept (poll os p) + ATTEMPT_DELAY\<rparr>"
    have q': "queries ?p' = queries p + 1" using None by (simp add: poll_def)
    show ?thesis
    proof (cases "os (queries p)")
      case (Some rc)
      then have "returncode (poll os p) = Some rc" using None by (simp add: poll_def)
      then have "teardown_loop os p attempt = poll os p"
        by (subst teardown_loop_unfold) simp
      moreover have "\<not> alive_for os p (Suc (3 - attempt))"
        using Some by (subst alive_for_peel [where p' = "p\<lparr>returncode := None, queries := queries p + 1\<rparr>"]) simp_all
      ultimately show ?thesis
        using \<open>returncode (poll os p) = Some rc\<close> by (simp add: four)
    next
      case osNone: None
      then have rp: "returncode (poll os p) = None" using None by (simp add: poll_def)
      then have r': "returncode ?p' = None" by simp
      show ?thesis
      proof (cases "attempt < 3")
        case True
        have "(returncode (teardown_loop os ?p' (attempt + 1)) = None) =
                alive_for os ?p' (4 - (attempt + 1))"
          using True rp by (intro "1.IH") (simp_all add: is_running_def MAX_ATTEMPTS_def)
        moreover have "teardown_loop os p attempt = teardown_loop os ?p' (attempt + 1)"
          using True rp by (subst teardown_loop_unfold) (simp add: ATTEMPT_DELAY_def)
        moreover have "alive_for os p (Suc (3 - attempt)) = alive_for os ?p' (3 - attempt)"
          using None osNone by (subst alive_for_peel [OF r' q']) simp
        ultimately show ?thesis by (simp add: four)
      next
        case False
        then have a3: "attempt = 3" using "1.prems" by simp
        have "teardown_loop os p attempt = poll os p"
          using False by (subst teardown_loop_unfold) simp
        then show ?thesis using rp None osNone by (simp add: a3)
      qed
    qed
  qed
qed

lemma teardown_loop_slept:
  "a \<le> 3 \<Longrightarrow> k \<le> 3 - a \<Longrightarrow> alive_for os p k \<Longrightarrow>
   (k < 3 - a \<Longrightarrow> \<not> alive_for os p (Suc k)) \<Longrightarrow>
   slept (teardown_loop os p a) = slept p + k \<and>
   queries (teardown_loop os p a) = queries p + (if returncode p = None then Suc k else 0)"
proof (induction k arbitrary: p a)
  case 0
  show ?case
  proof (cases "returncode (poll os p) = None \<and> a < 3")
    case True
    then have "returncode p = None" "os (queries p) = None"
      by (auto simp add: poll_def split: option.splits)
    then have "alive_for os p (Suc 0)" by simp
    with 0 True show ?thesis by simp
  next
    case False
    then have "teardown_loop os p a = poll os p"
      by (subst teardown_loop_unfold) auto
    then show ?thesis by (simp add: poll_def split: option.splits)
  qed
next
  case (Suc k)
  let ?p' = "(poll os p)\<lparr>slept := slept (poll os p) + 1\<rparr>"
  from Suc.prems(3) have rc: "returncode p = None" and os0: "os (queries p) = None"
    using alive_for_peel [of "p\<lparr>queries := queries p + 1\<rparr>" p os k] by simp_all
  have rp: "returncode (poll os p) = None" using rc os0 by (simp add: poll_def)
  have r': "returncode ?p' = None" using rp by simp
  have q': "queries ?p' = queries p + 1" using rc by (simp add: poll_def)
  have s': "slept ?p' = slept p + 1" using rc by (simp add: poll_def)
  have a3: "a < 3" using Suc.prems(2) by simp
  have unf: "teardown_loop os p a = teardown_loop os ?p' (a + 1)"
    using a3 rp by (subst teardown_loop_unfold) simp
  have peel: "alive_for os p (Suc n) = alive_for os ?p' n" for n
    using rc os0 by (subst alive_for_peel [OF r' q']) simp
  have "slept (teardown_loop os ?p' (a + 1)) = slept ?p' + k \<and>
        queries (teardown_loop os ?p' (a + 1)) =
          queries ?p' + (if returncode ?p' = None then Suc k else 0)"
  proof (rule Suc.IH)
    show "a + 1 \<le> 3" using a3 by simp
    show "k \<le> 3 - (a + 1)" using Suc.prems(2) by simp
    show "alive_for os ?p' k" using Suc.prems(3) unfolding peel .
    show "\<not> alive_for os ?p' (Suc k)" if "k < 3 - (a + 1)"
    proof -
      from that have "Suc k < 3 - a" by simp
      from Suc.prems(4) [OF this] show ?thesis unfolding peel .
    qed
  qed
  then show ?case using unf r' q' s' rc by simp
qed


lemma teardown_sent:
  "sent (teardown os p) = sent p @ (if alive_for os p 4 then [SIGKILL] else [])"
  using teardown_loop_alive [of 0 os p]
  by (simp add: teardown_def Let_def kill_def send_signal_def teardown_loop_sent)

lemma alive_for_3_2: "alive_for os p 3 \<Longrightarrow> alive_for os p 2"
  by (simp add: numeral_3_eq_3 numeral_2_eq_2)

lemma alive_for_2_1: "alive_for os p 2 \<Longrightarrow> alive_for os p 1"
  by (simp add: numeral_2_eq_2)

lemma alive_for_4_3: "alive_for os p 4 \<Longrightarrow> alive_for os p 3"
  by (simp add: numeral_eq_Suc)

lemma teardown_loop_counts:
  "slept (teardown_loop os p 0) =
     slept p + (if alive_for os p 3 then 3 else if alive_for os p 2 then 2
                else if alive_for os p 1 then 1 else 0) \<and>
   queries (teardown_loop os p 0) \<le> queries p + 4"
proof -
  consider (a3) "alive_for os p 3"
    | (a2) "alive_for os p 2" "\<not> alive_for os p 3"
    | (a1) "alive_for os p 1" "\<not> alive_for os p 2"
    | (a0) "\<not> alive_for os p 1"
    by blast
  then show ?thesis
  proof cases
    case a3
    with teardown_loop_slept [of 0 3 os p] show ?thesis by simp
  next
    case a2
    have n: "\<not> alive_for os p (Suc 2)"
      using a2(2) by (simp add: numeral_3_eq_3 numeral_2_eq_2)
    from teardown_loop_slept [of 0 2 os p, OF _ _ a2(1) n] a2 show ?thesis by simp
  next
    case a1
    have n: "\<not> alive_for os p (Suc 1)"
      using a1(2) by (simp add: numeral_2_eq_2)
    have "\<not> alive_for os p 3" using a1(2) alive_for_3_2 by blast
    with teardown_loop_slept [of 0 1 os p, OF _ _ a1(1) n] a1 show ?thesis by simp
  next
    case a0
    have n: "\<not> alive_for os p (Suc 0)" using a0 by simp
    have z: "alive_for os p 0" by simp
    have "\<not> alive_for os p 2" using a0 alive_for_2_1 by blast
    moreover from this have "\<not> alive_for os p 3" using alive_for_3_2 by blast
    ultimately show ?thesis
      using a0 teardown_loop_slept [of 0 0 os p, OF _ _ z n] by auto
  qed
qed

lemma teardown_slept:
  "slept (teardown os p) =
     slept p + (if alive_for os p 3 then 3 else if alive_for os p 2 then 2
                else if alive_for os p 1 then 1 else 0)"
  using teardown_loop_counts [of os p]
  by (simp add: teardown_def Let_def kill_def send_signal_def)

lemma teardown_queries: "queries (teardown os p) \<le> queries p + 4"
  using teardown_loop_counts [of os p]
  by (simp add: teardown_def Let_def kill_def send_signal_def)

lemma teardown_known_exit: "returncode p \<noteq> None \<Longrightarrow> teardown os p = p"
  by (auto simp add: teardown_def Let_def teardown_loop_known_exit)

lemma teardown_queries_alive:
  assumes "alive_for os p 3"
  shows "queries (teardown os p) = queries p + 4"
proof -
  from assms have "returncode p = None" by (simp add: numeral_3_eq_3)
  with teardown_loop_slept [of 0 3 os p] assms show ?thesis
    by (simp add: teardown_def Let_def kill_def send_signal_def)
qed

lemma teardown_again_after_kill:
  assumes "alive_for os p 4" and "os (queries p + 4) \<noteq> None"
  shows "sent (teardown os (teardown os p)) = sent (teardown os p) \<and>
         slept (teardown os (teardown os p)) = slept (teardown os p)"
proof -
  from assms(1) have a3: "alive_for os p 3" by (rule alive_for_4_3)
  have "\<not> alive_for os (teardown os p) 1"
    using assms(2) teardown_queries_alive [OF a3] by simp
  moreover from this have "\<not> alive_for os (teardown os p) 2"
    using alive_for_2_1 by blast
  moreover from this have "\<not> alive_for os (teardown os p) 3"
    using alive_for_3_2 by blast
  moreover from this have "\<not> alive_for os (teardown os p) 4"
    using alive_for_4_3 by blast
  ultimately show ?thesis
    by (simp only: teardown_sent [of os "teardown os p"] teardown_slept [of os "teardown os p"])
       simp
qed

text \<open>
  Claim C2, as amended.  The finalizer sends no graceful termination.  It checks
  liveness, sleeps one second after each check that finds the process running, at most
  three times, and sends the forced kill exactly when the fourth check still finds the
  process running; the process that is found exited at the first check is neither
  signalled nor waited for, and the handle that already knows the exit status is left
  as it is.  Running the finalizer again changes nothing once an exit has been observed;
  after a kill it sends no further signal and does not sleep, provided the next check
  finds the child dead.
\<close>

theorem teardown_waits_then_kills:
  "sent (teardown os p) = sent p @ (if alive_for os p 4 then [SIGKILL] else []) \<and>
   slept (teardown os p) =
     slept p + (if alive_for os p 3 then 3 else if alive_for os p 2 then 2
                else if alive_for os p 1 then 1 else 0) \<and>
   queries (teardown os p) \<le> queries p + 4 \<and>
   (returncode p \<noteq> None \<longrightarrow> teardown os p = p) \<and>
   (returncode (teardown os p) \<noteq> None \<longrightarrow> teardown os (teardown os p) = teardown os p) \<and>
   (alive_for os p 4 \<and> os (queries p + 4) \<noteq> None \<longrightarrow>
      sent (teardown os (teardown os p)) = sent (teardown os p) \<and>
      slept (teardown os (teardown os p)) = slept (teardown os p))"
  using teardown_sent [of os p] teardown_slept [of os p] teardown_queries [of os p]
    teardown_known_exit [of p os] teardown_known_exit [of "teardown os p" os]
    teardown_again_after_kill [of os p]
  by blast

theorem teardown_waits_then_kills_witness:
  "returncode (fresh_process\<lparr>returncode := Some 0\<rparr>) \<noteq> None \<and>
   teardown never_exits (fresh_process\<lparr>returncode := Some 0\<rparr>) = fresh_process\<lparr>returncode := Some 0\<rparr> \<and>
   returncode (teardown (exits_after 2 0) fresh_process) \<noteq> None \<and>
   teardown (exits_after 2 0) (teardown (exits_after 2 0) fresh_process) =
     teardown (exits_after 2 0) fresh_process \<and>
   sent (teardown (exits_after 2 0) fresh_process) = [] \<and>
   slept (teardown (exits_after 2 0) fresh_process) = 2 \<and>
   sent (teardown never_exits fresh_process) = [SIGKILL] \<and>
   slept (teardown never_exits fresh_process) = 3 \<and>
   alive_for (exits_after 4 (-9)) fresh_process 4 \<and>
   exits_after 4 (-9) (queries fresh_process + 4) \<noteq> None \<and>
   sent (teardown (exits_after 4 (-9)) (teardown (exits_after 4 (-9)) fresh_process)) = [SIGKILL]"
proof -
  have a: "returncode (teardown (exits_after 2 0) fresh_process) \<noteq> None"
    by (simp add: teardown_def teardown_loop.simps is_running_def poll_def Let_def
        exits_after_def fresh_process_def MAX_ATTEMPTS_def ATTEMPT_DELAY_def kill_def send_signal_def)
  show ?thesis
    using teardown_waits_then_kills [of never_exits "fresh_process\<lparr>returncode := Some 0\<rparr>"]
      teardown_waits_then_kills [of "exits_after 2 0" fresh_process]
      teardown_waits_then_kills [of never_exits fresh_process]
      teardown_waits_then_kills [of "exits_after 4 (-9)" fresh_process] a
    by (simp add: fresh_process_def never_exits_def exits_after_def numeral_eq_Suc)
qed

text \<open>
  Claim C2 as stated fails in its first part: on a process that is running and stays
  running, the finalizer sends the forced kill only, and no graceful termination.
\<close>

theorem teardown_sends_no_terminate_counterexample:
  "returncode fresh_process = None \<and>
   never_exits (queries fresh_process) = None \<and>
   sent (teardown never_exits fresh_process) = [SIGKILL] \<and>
   SIGTERM \<notin> set (sent (teardown never_exits fresh_process))"
  by (simp add: teardown_def teardown_loop.simps is_running_def poll_def Let_def
        never_exits_def fresh_process_def MAX_ATTEMPTS_def ATTEMPT_DELAY_def kill_def send_signal_def)

text \<open>
  Claim C5.  When the alarm fires, the handler checks liveness.  If the process is
  running it sends the graceful terminate and sets \<^verbatim>\<open>terminated\<close>; otherwise it sends
  nothing and leaves \<^verbatim>\<open>terminated\<close> as it was: the handle is only what the liveness check
  made of it, and is untouched when the exit status was already known.
\<close>

theorem timeout_callback:
  "(fst (is_running os c) \<longrightarrow>
      sent (OmbtController_timeout os c) = sent c @ [SIGTERM] \<and>
      terminated (OmbtController_timeout os c) = True) \<and>
   (\<not> fst (is_running os c) \<longrightarrow>
      OmbtController_timeout os c = snd (is_running os c) \<and>
      sent (OmbtController_timeout os c) = sent c \<and>
      terminated (OmbtController_timeout os c) = terminated c) \<and>
   (returncode c \<noteq> None \<longrightarrow> OmbtController_timeout os c = c)"
  by (auto simp add: OmbtController_timeout_def is_running_def Let_def poll_def terminate_def
        send_signal_def split: option.splits)

theorem timeout_callback_witness:
  "fst (is_running never_exits fresh_controller) \<and>
   sent (OmbtController_timeout never_exits fresh_controller) = [SIGTERM] \<and>
   terminated (OmbtController_timeout never_exits fresh_controller) \<and>
   \<not> fst (is_running (exits_after 0 0) fresh_controller) \<and>
   sent (OmbtController_timeout (exits_after 0 0) fresh_controller) = [] \<and>
   \<not> terminated (OmbtController_timeout (exits_after 0 0) fresh_controller) \<and>
   returncode (fresh_controller\<lparr>returncode := Some 0\<rparr>) \<noteq> None \<and>
   OmbtController_timeout never_exits (fresh_controller\<lparr>returncode := Some 0\<rparr>) =
     fresh_controller\<lparr>returncode := Some 0\<rparr>"
proof -
  have a: "fst (is_running never_exits fresh_controller)"
    and b: "\<not> fst (is_running (exits_after 0 0) fresh_controller)"
    by (simp_all add: is_running_def poll_def never_exits_def exits_after_def fresh_controller_def)
  show ?thesis
    using timeout_callback [of never_exits fresh_controller]
      timeout_callback [of "exits_after 0 0" fresh_controller]
      timeout_callback [of never_exits "fresh_controller\<lparr>returncode := Some 0\<rparr>"] a b
    by (simp add: fresh_controller_def is_running_def poll_def never_exits_def exits_after_def)
qed

text \<open>
  Claim C4.  \<^verbatim>\<open>get_results\<close> returns \<^verbatim>\<open>None\<close> whenever the command was marked as
  timed out or its exit status is not zero; a result is produced only from a process
  with exit status zero that was not timed out, and then it is the parsed output.
\<close>

theorem get_results_only_after_success:
  "(terminated c \<or> returncode c \<noteq> Some 0 \<longrightarrow> get_results c = None) \<and>
   (get_results c \<noteq> None \<longrightarrow> returncode c = Some 0 \<and> \<not> terminated c) \<and>
   (returncode c = Some 0 \<and> \<not> terminated c \<longrightarrow>
      get_results c = from_output (controller_cmd c) (result c))"
  by (auto simp add: get_results_def)

theorem get_results_only_after_success_witness:
  "get_results (fresh_controller\<lparr>returncode := Some 0, terminated := True, result := ''x''\<rparr>) = None \<and>
   get_results (fresh_controller\<lparr>returncode := Some 1, result := ''x''\<rparr>) = None \<and>
   get_results (fresh_controller\<lparr>returncode := Some 0, result := ''x''\<rparr>) \<noteq> None \<and>
   get_results (fresh_controller\<lparr>returncode := Some 0, result := ''x''\<rparr>) = from_output NOTIFY ''x''"
proof -
  have "get_results (fresh_controller\<lparr>returncode := Some 0, result := ''x''\<rparr>) \<noteq> None"
    by (simp add: get_results_def fresh_controller_def from_output_def)
  then show ?thesis
    using get_results_only_after_success [of "fresh_controller\<lparr>returncode := Some 0, terminated := True, result := ''x''\<rparr>"]
      get_results_only_after_success [of "fresh_controller\<lparr>returncode := Some 1, result := ''x''\<rparr>"]
      get_results_only_after_success [of "fresh_controller\<lparr>returncode := Some 0, result := ''x''\<rparr>"]
    by (simp add: fresh_controller_def)
qed

text \<open>
  Claim C9.  For every command, \<^verbatim>\<open>from_output\<close> returns \<^verbatim>\<open>None\<close> on the empty text.
\<close>

theorem from_output_empty: "from_output cmd [] = None"
  by (simp add: from_output_def)

section \<open>Properties of the parser of the benchmark output\<close>

lemma strip_prefix_iff: "strip_prefix p s = Some r \<longleftrightarrow> s = p @ r"
  by (induction p s rule: strip_prefix.induct) auto

lemma strip_prefix_append [simp]: "strip_prefix p (p @ r) = Some r"
  by (simp add: strip_prefix_iff)

lemma match_error_iff: "match_error l = Some m \<longleftrightarrow> l = ''Error: '' @ m"
  by (simp add: match_error_def strip_prefix_iff)

lemma match_header_prefix:
  "match_header side l \<Longrightarrow> \<exists>r. l = ''Aggregated '' @ r"
  by (auto simp add: match_header_def strip_prefix_iff split: option.splits)

lemma header_of_prefix: "header_of l = Some s \<Longrightarrow> \<exists>r. l = ''Aggregated '' @ r"
  by (auto simp add: header_of_def match_server_header_def match_client_header_def
      dest: match_header_prefix split: if_splits)

lemma match_throughput_prefix:
  "match_throughput l = Some t \<Longrightarrow> \<exists>r. l = ''Aggregate throughput: '' @ r"
  by (auto simp add: match_throughput_def strip_prefix_iff split: option.splits)

lemma match_latency_prefix:
  "match_latency l = Some t \<Longrightarrow> \<exists>r. l = ''Latency '' @ r"
  by (auto simp add: match_latency_def strip_prefix_iff split: option.splits if_splits)

lemma header_no_error: "header_of l = Some s \<Longrightarrow> match_error l = None"
  by (auto dest!: header_of_prefix simp add: match_error_def)

lemma header_no_throughput: "header_of l = Some s \<Longrightarrow> match_throughput l = None"
  by (auto dest!: header_of_prefix simp add: match_throughput_def)

lemma header_no_latency: "header_of l = Some s \<Longrightarrow> match_latency l = None"
  by (auto dest!: header_of_prefix simp add: match_latency_def)

lemma throughput_no_error: "match_throughput l = Some t \<Longrightarrow> match_error l = None"
  by (auto dest!: match_throughput_prefix simp add: match_error_def)

lemma latency_no_error: "match_latency l = Some t \<Longrightarrow> match_error l = None"
  by (auto dest!: match_latency_prefix simp add: match_error_def)

lemma latency_no_throughput: "match_latency l = Some t \<Longrightarrow> match_throughput l = None"
  by (auto dest!: match_latency_prefix simp add: match_throughput_def)


subsection \<open>One line of the loop, by the class of the line\<close>

lemma line_error:
  "match_error l = Some m \<Longrightarrow>
   from_output_line (r, s) l = (r\<lparr>error_found := True, error_message := Some m\<rparr>, s)"
  by (simp add: from_output_line_def)

lemma line_header:
  "header_of l = Some sec \<Longrightarrow> from_output_line (r, s) l = (r, Some sec)"
  by (simp add: from_output_line_def header_no_error header_no_throughput header_no_latency)

lemma line_no_section:
  "header_of l = None \<Longrightarrow> \<exists>r'. from_output_line (r, None) l = (r', None) \<and>
      client_data r' = client_data r \<and> server_data r' = server_data r"
  by (cases "match_error l") (simp_all add: from_output_line_def)

lemma line_throughput:
  "header_of l = None \<Longrightarrow> match_throughput l = Some t \<Longrightarrow>
   from_output_line (r, Some sec) l = (set_throughput sec (py_float t) r, Some sec)"
  by (simp add: from_output_line_def throughput_no_error)

lemma line_latency:
  "header_of l = None \<Longrightarrow> match_latency l = Some t \<Longrightarrow>
   from_output_line (r, Some sec) l = (set_latency sec (py_float t) r, Some sec)"
  by (simp add: from_output_line_def latency_no_error latency_no_throughput)

lemma line_other:
  "header_of l = None \<Longrightarrow> match_throughput l = None \<Longrightarrow> match_latency l = None \<Longrightarrow>
   \<exists>r'. from_output_line (r, Some sec) l = (r', Some sec) \<and>
      client_data r' = client_data r \<and> server_data r' = server_data r"
  by (cases "match_error l") (simp_all add: from_output_line_def)

lemma get_data_set_throughput [simp]:
  "get_data s (set_throughput sec v r) =
     (if s = sec then (get_data s r)\<lparr>throughput := v\<rparr> else get_data s r)"
  by (cases s; cases sec) simp_all

lemma get_data_set_latency [simp]:
  "get_data s (set_latency sec v r) =
     (if s = sec then (get_data s r)\<lparr>latency := v\<rparr> else get_data s r)"
  by (cases s; cases sec) simp_all

lemma get_data_cong:
  "client_data r' = client_data r \<Longrightarrow> server_data r' = server_data r \<Longrightarrow>
   get_data s r' = get_data s r"
  by (cases s) simp_all

text \<open>The effect of one line inside a section on the data of both sections.\<close>

lemma line_in_section:
  assumes "header_of l = None"
  shows "\<exists>r'. from_output_line (r, Some sec) l = (r', Some sec) \<and>
           get_data (other_section sec) r' = get_data (other_section sec) r \<and>
           throughput (get_data sec r') =
             (case match_throughput l of None \<Rightarrow> throughput (get_data sec r)
              | Some t \<Rightarrow> py_float t) \<and>
           latency (get_data sec r') =
             (case match_latency l of None \<Rightarrow> latency (get_data sec r)
              | Some t \<Rightarrow> py_float t)"
proof (cases "match_throughput l")
  case (Some t)
  then have "match_latency l = None"
    using latency_no_throughput [of l] by (cases "match_latency l") auto
  with Some line_throughput [OF assms Some, of r sec] show ?thesis
    by (cases sec) simp_all
next
  case None
  show ?thesis
  proof (cases "match_latency l")
    case (Some t)
    with None line_latency [OF assms Some, of r sec] show ?thesis
      by (cases sec) simp_all
  next
    case lat: None
    from line_other [OF assms None lat, of r sec] obtain r'
      where r': "from_output_line (r, Some sec) l = (r', Some sec)"
        and c: "client_data r' = client_data r" and s: "server_data r' = server_data r"
      by blast
    have "get_data x r' = get_data x r" for x
      using c s by (rule get_data_cong)
    with None lat r' show ?thesis by simp
  qed
qed

subsection \<open>The loop over lines without a header\<close>

lemma loop_no_section:
  assumes "\<forall>l\<in>set ls. header_of l = None"
  shows "\<exists>r'. foldl from_output_line (r, None) ls = (r', None) \<and>
           client_data r' = client_data r \<and> server_data r' = server_data r"
  using assms
proof (induction ls arbitrary: r)
  case Nil
  then show ?case by simp
next
  case (Cons l ls)
  from Cons.prems have "header_of l = None" by simp
  from line_no_section [OF this, of r] obtain r1
    where r1: "from_output_line (r, None) l = (r1, None)"
      "client_data r1 = client_data r" "server_data r1 = server_data r"
    by blast
  from Cons.prems have rest: "\<forall>l\<in>set ls. header_of l = None" by simp
  from Cons.IH [OF rest, of r1] obtain r'
    where "foldl from_output_line (r1, None) ls = (r', None)"
      "client_data r' = client_data r1" "server_data r' = server_data r1"
    by blast
  with r1 show ?case by simp
qed

lemma loop_in_section:
  assumes "\<forall>l\<in>set ls. header_of l = None"
  shows "\<exists>r'. foldl from_output_line (r, Some sec) ls = (r', Some sec) \<and>
           get_data (other_section sec) r' = get_data (other_section sec) r \<and>
           throughput (get_data sec r') =
             (case last_match match_throughput ls of None \<Rightarrow> throughput (get_data sec r)
              | Some t \<Rightarrow> py_float t) \<and>
           latency (get_data sec r') =
             (case last_match match_latency ls of None \<Rightarrow> latency (get_data sec r)
              | Some t \<Rightarrow> py_float t)"
  using assms
proof (induction ls arbitrary: r)
  case Nil
  then show ?case by simp
next
  case (Cons l ls)
  from Cons.prems have "header_of l = None" by simp
  from line_in_section [OF this, of r sec] obtain r1
    where r1: "from_output_line (r, Some sec) l = (r1, Some sec)"
      "get_data (other_section sec) r1 = get_data (other_section sec) r"
      "throughput (get_data sec r1) =
         (case match_throughput l of None \<Rightarrow> throughput (get_data sec r) | Some t \<Rightarrow> py_float t)"
      "latency (get_data sec r1) =
         (case match_latency l of None \<Rightarrow> latency (get_data sec r) | Some t \<Rightarrow> py_float t)"
    by blast
  from Cons.prems have rest: "\<forall>l\<in>set ls. header_of l = None" by simp
  from Cons.IH [OF rest, of r1] obtain r'
    where r': "foldl from_output_line (r1, Some sec) ls = (r', Some sec)"
      "get_data (other_section sec) r' = get_data (other_section sec) r1"
      "throughput (get_data sec r') =
         (case last_match match_throughput ls of None \<Rightarrow> throughput (get_data sec r1)
          | Some t \<Rightarrow> py_float t)"
      "latency (get_data sec r') =
         (case last_match match_latency ls of None \<Rightarrow> latency (get_data sec r1)
          | Some t \<Rightarrow> py_float t)"
    by blast
  have "foldl from_output_line (r, Some sec) (l # ls) = (r', Some sec)"
    using r1(1) r'(1) by simp
  moreover have "get_data (other_section sec) r' = get_data (other_section sec) r"
    using r1(2) r'(2) by simp
  moreover have "throughput (get_data sec r') =
      (case last_match match_throughput (l # ls) of None \<Rightarrow> throughput (get_data sec r)
       | Some t \<Rightarrow> py_float t)"
    using r1(3) r'(3) by (cases "last_match match_throughput ls") simp_all
  moreover have "latency (get_data sec r') =
      (case last_match match_latency (l # ls) of None \<Rightarrow> latency (get_data sec r)
       | Some t \<Rightarrow> py_float t)"
    using r1(4) r'(4) by (cases "last_match match_latency ls") simp_all
  ultimately show ?case by blast
qed

lemma last_match_none:
  "filter (\<lambda>l. m l \<noteq> None) ls = [] \<Longrightarrow> last_match m ls = None"
  by (induction ls) (auto split: if_splits)

lemma last_match_single:
  "filter (\<lambda>l. m l \<noteq> None) ls = [x] \<Longrightarrow> last_match m ls = m x"
proof (induction ls)
  case Nil
  then show ?case by simp
next
  case (Cons l ls)
  show ?case
  proof (cases "m l")
    case None
    with Cons.prems have f: "filter (\<lambda>l. m l \<noteq> None) ls = [x]" by simp
    then have "x \<in> set (filter (\<lambda>l. m l \<noteq> None) ls)" by simp
    then have "m x \<noteq> None" by simp
    with Cons.IH [OF f] show ?thesis by auto
  next
    case (Some t)
    with Cons.prems have x: "l = x" and e: "filter (\<lambda>l. m l \<noteq> None) ls = []" by simp_all
    from last_match_none [OF e] x show ?thesis by simp
  qed
qed

subsection \<open>The line shapes are matched by the patterns\<close>

lemma is_digit_simps [simp]:
  "\<not> is_digit CHR ''.''" "\<not> is_digit CHR '' ''"
  by (simp_all add: is_digit_def)

lemma takeWhile_digits:
  "list_all is_digit d \<Longrightarrow> \<not> is_digit c \<Longrightarrow> takeWhile is_digit (d @ c # s) = d"
  by (induction d) simp_all

lemma dropWhile_digits:
  "list_all is_digit d \<Longrightarrow> \<not> is_digit c \<Longrightarrow> dropWhile is_digit (d @ c # s) = c # s"
  by (induction d) simp_all

lemma match_float_decimal:
  assumes "digits d" and "digits e" and "\<not> is_digit c"
  shows "match_float (d @ ''.'' @ e @ c # s) = Some (d @ ''.'' @ e, c # s)"
  using assms
  by (simp add: match_float_def digits_def takeWhile_digits dropWhile_digits)

lemma match_throughput_line:
  assumes "digits d" and "digits e"
  shows "match_throughput (throughput_line (d @ ''.'' @ e) x) = Some (d @ ''.'' @ e)"
proof -
  have "match_float (d @ ''.'' @ e @ CHR '' '' # ''msgs/sec'' @ x) =
          Some (d @ ''.'' @ e, CHR '' '' # ''msgs/sec'' @ x)"
    using assms by (intro match_float_decimal) simp_all
  then show ?thesis
    by (simp add: match_throughput_def throughput_line_def)
qed

lemma match_latency_line:
  assumes "digits n" and "digits d" and "digits e"
  shows "match_latency (latency_line n (d @ ''.'' @ e) x) = Some (d @ ''.'' @ e)"
proof -
  have f: "match_float (d @ ''.'' @ e @ CHR '' '' # ''StdDev'' @ x) =
          Some (d @ ''.'' @ e, CHR '' '' # ''StdDev'' @ x)"
    using assms by (intro match_float_decimal) simp_all
  have t: "takeWhile is_digit (n @ CHR '' '' # ''samples (msecs): Average '' @ d @ ''.'' @ e @ '' StdDev'' @ x) = n"
    using assms(1) by (intro takeWhile_digits) (simp_all add: digits_def)
  have dr: "dropWhile is_digit (n @ CHR '' '' # ''samples (msecs): Average '' @ d @ ''.'' @ e @ '' StdDev'' @ x) =
      CHR '' '' # ''samples (msecs): Average '' @ d @ ''.'' @ e @ '' StdDev'' @ x"
    using assms(1) by (intro dropWhile_digits) (simp_all add: digits_def)
  from assms(1) have "n \<noteq> []" by (simp add: digits_def)
  with f t dr show ?thesis
    by (simp add: match_latency_def latency_line_def)
qed

lemma py_float_decimal:
  assumes "digits d" and "digits e"
  shows "py_float (d @ ''.'' @ e) = real (digits_value d) + real (digits_value e) / 10 ^ length e"
  using assms
  by (simp add: py_float_def digits_def takeWhile_digits dropWhile_digits)

subsection \<open>The lines of a text\<close>

lemma split_newline_not_Nil [simp]: "split_newline s \<noteq> []"
  by (induction s) (auto split: list.splits)

lemma split_newline_no_newline:
  "l \<in> set (split_newline s) \<Longrightarrow> newline \<notin> set l"
  by (induction s arbitrary: l) (auto split: list.splits if_splits)

lemma rstrip_newline_id: "newline \<notin> set l \<Longrightarrow> rstrip_newline l = l"
proof -
  assume "newline \<notin> set l"
  then have "dropWhile (\<lambda>c. c = newline) (rev l) = rev l"
    by (cases "rev l") auto
  then show ?thesis by (simp add: rstrip_newline_def)
qed

lemma output_lines_split: "output_lines s = split_newline s"
  by (simp add: output_lines_def map_idI rstrip_newline_id split_newline_no_newline)

lemma output_lines_empty: "output_lines [] = [[]]"
  by (simp add: output_lines_def rstrip_newline_def)

subsection \<open>The matchers are the regular expressions\<close>

text \<open>
  Each hand-written matcher accepts exactly the lines its regular expression accepts:
  a header is \<^verbatim>\<open>Aggregated \<close>, any text, the name of the side, any text, \<^verbatim>\<open> results:\<close>, any
  text; a metric line is the literal text around a token \<^verbatim>\<open>digits.digits\<close>, and the
  matcher yields that token.
\<close>

lemma find_sub_sound: "find_sub p s = Some r \<Longrightarrow> \<exists>a. s = a @ p @ r"
proof (induction s)
  case Nil
  then show ?case by (simp add: strip_prefix_iff)
next
  case (Cons c cs)
  show ?case
  proof (cases "strip_prefix p (c # cs)")
    case None
    with Cons.prems have "find_sub p cs = Some r" by simp
    from Cons.IH [OF this] obtain a where "cs = a @ p @ r" by blast
    then have "c # cs = (c # a) @ p @ r" by simp
    then show ?thesis by blast
  next
    case (Some r')
    with Cons.prems have "r' = r" by simp
    with Some have "c # cs = [] @ p @ r" by (simp add: strip_prefix_iff)
    then show ?thesis by blast
  qed
qed

lemma find_sub_complete: "\<exists>r x. find_sub p (a @ p @ b) = Some r \<and> r = x @ b"
proof (induction a)
  case Nil
  show ?case
  proof (cases "p @ b")
    case Nil
    then show ?thesis by simp
  next
    case (Cons c cs)
    have "strip_prefix p (p @ b) = Some b" by simp
    then have "strip_prefix p (c # cs) = Some b" by (simp only: Cons)
    then have "find_sub p (c # cs) = Some b" by simp
    then have "find_sub p ([] @ p @ b) = Some b" by (simp only: Cons append_Nil)
    then show ?thesis by blast
  qed
next
  case (Cons c a)
  show ?case
  proof (cases "strip_prefix p (c # a @ p @ b)")
    case None
    with Cons.IH show ?thesis by simp
  next
    case (Some r)
    then have eq: "c # a @ p @ b = p @ r" by (simp add: strip_prefix_iff)
    have "c # a @ p @ b = (c # a @ p) @ b" by simp
    then have "suffix b (p @ r)" unfolding eq [symmetric] suffix_def by blast
    moreover have "suffix r (p @ r)" by (simp add: suffix_def)
    moreover have "length b \<le> length r"
      using arg_cong [OF eq, of length] by simp
    ultimately have "suffix b r" by (rule suffix_length_suffix)
    then obtain x where "r = x @ b" by (auto simp add: suffix_def)
    with Some show ?thesis by simp
  qed
qed

lemma match_header_iff:
  "match_header side l \<longleftrightarrow> (\<exists>a b c. l = ''Aggregated '' @ a @ side @ b @ '' results:'' @ c)"
proof
  assume "match_header side l"
  then obtain r r' r'' where "l = ''Aggregated '' @ r" "find_sub side r = Some r'"
    "find_sub '' results:'' r' = Some r''"
    by (auto simp add: match_header_def strip_prefix_iff split: option.splits)
  moreover from this obtain a b where "r = a @ side @ r'" "r' = b @ '' results:'' @ r''"
    by (blast dest: find_sub_sound)
  ultimately show "\<exists>a b c. l = ''Aggregated '' @ a @ side @ b @ '' results:'' @ c"
    by blast
next
  assume "\<exists>a b c. l = ''Aggregated '' @ a @ side @ b @ '' results:'' @ c"
  then obtain a b c where l: "l = ''Aggregated '' @ (a @ side @ (b @ '' results:'' @ c))"
    by auto
  from find_sub_complete [of side a "b @ '' results:'' @ c"] obtain r x
    where r: "find_sub side (a @ side @ (b @ '' results:'' @ c)) = Some r"
      "r = (x @ b) @ '' results:'' @ c" by auto
  from find_sub_complete [of "'' results:''" "x @ b" c] r(2) obtain r'
    where "find_sub '' results:'' r = Some r'" by auto
  with r(1) show "match_header side l"
    unfolding l match_header_def by (simp only: strip_prefix_append option.case) simp
qed


lemma match_float_sound:
  assumes "match_float s = Some (tok, r)"
  shows "\<exists>d e. digits d \<and> digits e \<and> tok = d @ ''.'' @ e \<and> s = tok @ r"
proof -
  let ?d = "takeWhile is_digit s"
  from assms obtain r' where d: "?d \<noteq> []" and r': "dropWhile is_digit s = ''.'' @ r'"
    and e: "takeWhile is_digit r' \<noteq> []"
    and tok: "tok = ?d @ ''.'' @ takeWhile is_digit r'" and r: "r = dropWhile is_digit r'"
    by (auto simp add: match_float_def Let_def strip_prefix_iff split: if_splits option.splits)
  have "s = ?d @ dropWhile is_digit s" by simp
  also have "\<dots> = ?d @ ''.'' @ takeWhile is_digit r' @ dropWhile is_digit r'"
    by (simp only: r' takeWhile_dropWhile_id)
  finally have "s = tok @ r" by (simp add: tok r)
  moreover have "digits ?d" using d by (simp add: digits_def list_all_iff) (meson set_takeWhileD)
  moreover have "digits (takeWhile is_digit r')"
    using e by (simp add: digits_def list_all_iff) (meson set_takeWhileD)
  ultimately show ?thesis using tok by blast
qed

lemma match_throughput_iff:
  "match_throughput l = Some t \<longleftrightarrow>
     (\<exists>d e x. digits d \<and> digits e \<and> t = d @ ''.'' @ e \<and> l = throughput_line t x)"
proof
  assume "match_throughput l = Some t"
  then obtain r r1 x where "l = ''Aggregate throughput: '' @ r" "match_float r = Some (t, r1)"
    "r1 = '' msgs/sec'' @ x"
    by (auto simp add: match_throughput_def strip_prefix_iff split: option.splits)
  moreover from match_float_sound [OF this(2)] obtain d e
    where "digits d" "digits e" "t = d @ ''.'' @ e" "r = t @ r1" by blast
  ultimately show "\<exists>d e x. digits d \<and> digits e \<and> t = d @ ''.'' @ e \<and> l = throughput_line t x"
    by (auto simp add: throughput_line_def)
next
  assume "\<exists>d e x. digits d \<and> digits e \<and> t = d @ ''.'' @ e \<and> l = throughput_line t x"
  then show "match_throughput l = Some t"
    by (metis match_throughput_line)
qed

lemma match_latency_iff:
  "match_latency l = Some t \<longleftrightarrow>
     (\<exists>n d e x. digits n \<and> digits d \<and> digits e \<and> t = d @ ''.'' @ e \<and> l = latency_line n t x)"
proof
  assume "match_latency l = Some t"
  then obtain r r1 r2 x where l: "l = ''Latency '' @ r" and n: "takeWhile is_digit r \<noteq> []"
    and r1: "dropWhile is_digit r = '' samples (msecs): Average '' @ r1"
    and f: "match_float r1 = Some (t, r2)" and r2: "r2 = '' StdDev'' @ x"
    by (auto simp add: match_latency_def strip_prefix_iff split: option.splits if_splits)
  from match_float_sound [OF f] obtain d e
    where de: "digits d" "digits e" "t = d @ ''.'' @ e" "r1 = t @ r2" by blast
  have "r = takeWhile is_digit r @ dropWhile is_digit r" by simp
  then have "l = latency_line (takeWhile is_digit r) t x"
    by (simp only: l r1 de(4) r2 latency_line_def)
  moreover have "digits (takeWhile is_digit r)"
    using n by (simp add: digits_def list_all_iff) (meson set_takeWhileD)
  ultimately show "\<exists>n d e x. digits n \<and> digits d \<and> digits e \<and> t = d @ ''.'' @ e \<and>
      l = latency_line n t x"
    using de by blast
next
  assume "\<exists>n d e x. digits n \<and> digits d \<and> digits e \<and> t = d @ ''.'' @ e \<and> l = latency_line n t x"
  then show "match_latency l = Some t"
    by (metis match_latency_line)
qed

lemma other_section_neq: "s1 \<noteq> s2 \<Longrightarrow> other_section s2 = s1"
  by (cases s1; cases s2) simp_all

text \<open>A section with exactly one throughput line and exactly one latency line.\<close>

lemma loop_one_of_each:
  assumes "\<forall>l\<in>set ls. header_of l = None"
    and "filter (\<lambda>l. match_throughput l \<noteq> None) ls = [tline]"
    and "filter (\<lambda>l. match_latency l \<noteq> None) ls = [lline]"
    and "match_throughput tline = Some t" and "match_latency lline = Some u"
  shows "\<exists>r'. foldl from_output_line (r, Some sec) ls = (r', Some sec) \<and>
           get_data (other_section sec) r' = get_data (other_section sec) r \<and>
           get_data sec r' = \<lparr>throughput = py_float t, latency = py_float u\<rparr>"
proof -
  from loop_in_section [OF assms(1), of r sec] obtain r'
    where r': "foldl from_output_line (r, Some sec) ls = (r', Some sec)"
      "get_data (other_section sec) r' = get_data (other_section sec) r"
      "throughput (get_data sec r') =
         (case last_match match_throughput ls of None \<Rightarrow> throughput (get_data sec r)
          | Some t \<Rightarrow> py_float t)"
      "latency (get_data sec r') =
         (case last_match match_latency ls of None \<Rightarrow> latency (get_data sec r)
          | Some t \<Rightarrow> py_float t)"
    by blast
  have "throughput (get_data sec r') = py_float t"
    using r'(3) last_match_single [OF assms(2)] assms(4) by simp
  moreover have "latency (get_data sec r') = py_float u"
    using r'(4) last_match_single [OF assms(3)] assms(5) by simp
  ultimately have "get_data sec r' = \<lparr>throughput = py_float t, latency = py_float u\<rparr>"
    by (cases "get_data sec r'") simp
  with r'(1,2) show ?thesis by blast
qed

lemma from_output_Some:
  assumes "2 \<le> length (output_lines stdout)"
  shows "from_output cmd stdout =
           Some (fst (foldl from_output_line (OmbtResults_init cmd, None) (output_lines stdout)))"
proof -
  have "stdout \<noteq> []" using assms by (auto simp add: output_lines_empty)
  then show ?thesis by (simp add: from_output_def)
qed

text \<open>
  Claim C6.  Let the lines of the output be \<open>A\<close>, a header line, \<open>B\<close>, a header line of the
  other section, \<open>C\<close>, with no further header line, and let \<open>B\<close> and \<open>C\<close> each hold
  exactly one throughput line and exactly one latency line, of the shapes
  \<^verbatim>\<open>Aggregate throughput: <float> msgs/sec\<close> and
  \<^verbatim>\<open>Latency <n> samples (msecs): Average <float> StdDev ...\<close> with tokens
  \<^verbatim>\<open>digits.digits\<close>.  Then \<^verbatim>\<open>from_output\<close> returns a result in which the throughput and
  latency of each of the two sections are exactly the numbers of the tokens of that
  section.
\<close>

theorem from_output_two_sections:
  assumes "output_lines stdout = A @ [h1] @ B @ [h2] @ C"
    and "header_of h1 = Some s1" and "header_of h2 = Some s2" and "s1 \<noteq> s2"
    and "\<forall>l\<in>set (A @ B @ C). header_of l = None"
    and "filter (\<lambda>l. match_throughput l \<noteq> None) B = [throughput_line (d1 @ ''.'' @ e1) x1]"
    and "filter (\<lambda>l. match_latency l \<noteq> None) B = [latency_line n1 (f1 @ ''.'' @ g1) y1]"
    and "filter (\<lambda>l. match_throughput l \<noteq> None) C = [throughput_line (d2 @ ''.'' @ e2) x2]"
    and "filter (\<lambda>l. match_latency l \<noteq> None) C = [latency_line n2 (f2 @ ''.'' @ g2) y2]"
    and "list_all digits [d1, e1, n1, f1, g1, d2, e2, n2, f2, g2]"
  shows "\<exists>r. from_output cmd stdout = Some r \<and>
           get_data s1 r =
             \<lparr>throughput = py_float (d1 @ ''.'' @ e1), latency = py_float (f1 @ ''.'' @ g1)\<rparr> \<and>
           get_data s2 r =
             \<lparr>throughput = py_float (d2 @ ''.'' @ e2), latency = py_float (f2 @ ''.'' @ g2)\<rparr>"
proof -
  let ?init = "OmbtResults_init cmd"
  from assms(5) have hA: "\<forall>l\<in>set A. header_of l = None"
    and hB: "\<forall>l\<in>set B. header_of l = None" and hC: "\<forall>l\<in>set C. header_of l = None"
    by simp_all
  from assms(10) have dg: "digits d1" "digits e1" "digits n1" "digits f1" "digits g1"
    "digits d2" "digits e2" "digits n2" "digits f2" "digits g2"
    by simp_all
  from loop_no_section [OF hA, of ?init] obtain rA
    where rA: "foldl from_output_line (?init, None) A = (rA, None)" by blast
  have sA: "from_output_line (rA, None) h1 = (rA, Some s1)"
    using assms(2) by (rule line_header)
  from loop_one_of_each [OF hB assms(6) assms(7)
      match_throughput_line [OF dg(1) dg(2)] match_latency_line [OF dg(3) dg(4) dg(5)], of rA s1]
  obtain rB
    where rB: "foldl from_output_line (rA, Some s1) B = (rB, Some s1)"
      "get_data s1 rB =
         \<lparr>throughput = py_float (d1 @ ''.'' @ e1), latency = py_float (f1 @ ''.'' @ g1)\<rparr>"
    by blast
  have sB: "from_output_line (rB, Some s1) h2 = (rB, Some s2)"
    using assms(3) by (rule line_header)
  from loop_one_of_each [OF hC assms(8) assms(9)
      match_throughput_line [OF dg(6) dg(7)] match_latency_line [OF dg(8) dg(9) dg(10)], of rB s2]
  obtain rC
    where rC: "foldl from_output_line (rB, Some s2) C = (rC, Some s2)"
      "get_data (other_section s2) rC = get_data (other_section s2) rB"
      "get_data s2 rC =
         \<lparr>throughput = py_float (d2 @ ''.'' @ e2), latency = py_float (f2 @ ''.'' @ g2)\<rparr>"
    by blast
  have whole: "foldl from_output_line (?init, None) (output_lines stdout) = (rC, Some s2)"
    by (simp add: assms(1) rA sA rB(1) sB rC(1))
  have "2 \<le> length (output_lines stdout)" by (simp add: assms(1))
  from from_output_Some [OF this, of cmd] whole
  have "from_output cmd stdout = Some rC" by simp
  moreover have "get_data s1 rC = get_data s1 rB"
    using rC(2) other_section_neq [OF assms(4)] by simp
  ultimately show ?thesis using rB(2) rC(3) by simp
qed

lemmas eval_defs =
  sample_output_def client_only_output_def output_lines_def rstrip_newline_def newline_def
  header_of_def match_server_header_def match_client_header_def match_header_def
  match_throughput_def match_latency_def match_float_def is_digit_def
  throughput_line_def latency_line_def digits_def py_float_def digits_value_def digit_value_def
  OmbtData_init_def

theorem from_output_two_sections_witness:
  "\<exists>r. from_output NOTIFY sample_output = Some r \<and>
        server_data r = \<lparr>throughput = 27.3, latency = 5.7\<rparr> \<and>
        client_data r = \<lparr>throughput = 27.1, latency = 10.5\<rparr>"
proof -
  have "\<exists>r. from_output NOTIFY sample_output = Some r \<and>
           get_data Server r =
             \<lparr>throughput = py_float (''27'' @ ''.'' @ ''3''), latency = py_float (''5'' @ ''.'' @ ''7'')\<rparr> \<and>
           get_data Client r =
             \<lparr>throughput = py_float (''27'' @ ''.'' @ ''1''), latency = py_float (''10'' @ ''.'' @ ''5'')\<rparr>"
    by (rule from_output_two_sections [where A = "[]"
          and ?h1.0 = "''Aggregated RPC Server results:''"
          and B = "[''Aggregate throughput: 27.3 msgs/sec'',
                    ''Latency 100 samples (msecs): Average 5.7 StdDev 0.4'']"
          and ?h2.0 = "''Aggregated RPC Client results:''"
          and C = "[''Aggregate throughput: 27.1 msgs/sec'',
                    ''Latency 100 samples (msecs): Average 10.5 StdDev 1.2'']"
          and ?x1.0 = "[]" and ?n1.0 = "''100''" and ?y1.0 = "'' 0.4''"
          and ?x2.0 = "[]" and ?n2.0 = "''100''" and ?y2.0 = "'' 1.2''"])
       (simp_all add: eval_defs)
  then show ?thesis by (simp add: eval_defs)
qed

text \<open>
  Claim C6 as stated fails for numeric tokens that are not of the shape
  \<^verbatim>\<open>digits.digits\<close>: the patterns require \<^verbatim>\<open>[0-9]+\.[0-9]+\<close>, so the lines with the
  tokens \<^verbatim>\<open>1e3\<close>, \<^verbatim>\<open>.5\<close>, \<^verbatim>\<open>32\<close> and \<^verbatim>\<open>5.\<close> are not matched and all four fields keep
  their default 0.
\<close>

theorem from_output_float_tokens_counterexample:
  "from_output NOTIFY float_tokens_output = Some (OmbtResults_init NOTIFY) \<and>
   server_data (OmbtResults_init NOTIFY) = \<lparr>throughput = 0, latency = 0\<rparr> \<and>
   client_data (OmbtResults_init NOTIFY) = \<lparr>throughput = 0, latency = 0\<rparr>"
  by (simp add: float_tokens_output_def from_output_def from_output_line_def match_error_def
      OmbtResults_init_def eval_defs)


subsection \<open>Attribution of metric lines\<close>

lemma loop_state:
  "\<exists>r' s'. foldl from_output_line st ls = (r', s')"
  by (cases "foldl from_output_line st ls") simp

lemma before_any_header:
  assumes "\<forall>l\<in>set A. header_of l = None"
  shows "snd (foldl from_output_line (r, None) A) = None \<and>
         client_data (fst (foldl from_output_line (r, None) A)) = client_data r \<and>
         server_data (fst (foldl from_output_line (r, None) A)) = server_data r"
  using loop_no_section [OF assms, of r] by auto

lemma after_header:
  assumes "header_of h = Some s" and "\<forall>l\<in>set Q. header_of l = None"
  shows "snd (foldl from_output_line st (P @ [h] @ Q)) = Some s"
proof -
  obtain rP sP where P: "foldl from_output_line st P = (rP, sP)"
    using loop_state by blast
  from loop_in_section [OF assms(2), of rP s] obtain rQ
    where "foldl from_output_line (rP, Some s) Q = (rQ, Some s)" by blast
  then show ?thesis by (simp add: P line_header [OF assms(1)])
qed

lemma throughput_attributed:
  assumes "header_of h = Some s" and "\<forall>l\<in>set Q. header_of l = None"
    and "header_of m = None" and "match_throughput m = Some t"
  shows "throughput (get_data s (fst (foldl from_output_line st (P @ [h] @ Q @ [m])))) = py_float t \<and>
         latency (get_data s (fst (foldl from_output_line st (P @ [h] @ Q @ [m])))) =
           latency (get_data s (fst (foldl from_output_line st (P @ [h] @ Q)))) \<and>
         get_data (other_section s) (fst (foldl from_output_line st (P @ [h] @ Q @ [m]))) =
           get_data (other_section s) (fst (foldl from_output_line st (P @ [h] @ Q)))"
proof -
  obtain rQ where Q: "foldl from_output_line st (P @ [h] @ Q) = (rQ, Some s)"
    using after_header [OF assms(1,2), of st P]
    by (cases "foldl from_output_line st (P @ [h] @ Q)") simp
  have "foldl from_output_line st (P @ [h] @ Q @ [m]) =
          from_output_line (foldl from_output_line st (P @ [h] @ Q)) m"
    by simp
  also have "\<dots> = (set_throughput s (py_float t) rQ, Some s)"
    by (simp only: Q line_throughput [OF assms(3,4)])
  finally show ?thesis using Q by (cases s) simp_all
qed

lemma latency_attributed:
  assumes "header_of h = Some s" and "\<forall>l\<in>set Q. header_of l = None"
    and "header_of m = None" and "match_latency m = Some t"
  shows "latency (get_data s (fst (foldl from_output_line st (P @ [h] @ Q @ [m])))) = py_float t \<and>
         throughput (get_data s (fst (foldl from_output_line st (P @ [h] @ Q @ [m])))) =
           throughput (get_data s (fst (foldl from_output_line st (P @ [h] @ Q)))) \<and>
         get_data (other_section s) (fst (foldl from_output_line st (P @ [h] @ Q @ [m]))) =
           get_data (other_section s) (fst (foldl from_output_line st (P @ [h] @ Q)))"
proof -
  obtain rQ where Q: "foldl from_output_line st (P @ [h] @ Q) = (rQ, Some s)"
    using after_header [OF assms(1,2), of st P]
    by (cases "foldl from_output_line st (P @ [h] @ Q)") simp
  have "foldl from_output_line st (P @ [h] @ Q @ [m]) =
          from_output_line (foldl from_output_line st (P @ [h] @ Q)) m"
    by simp
  also have "\<dots> = (set_latency s (py_float t) rQ, Some s)"
    by (simp only: Q line_latency [OF assms(3,4)])
  finally show ?thesis using Q by (cases s) simp_all
qed

lemma client_section_only:
  assumes "output_lines stdout = A @ [h] @ B"
    and "header_of h = Some Client"
    and "\<forall>l\<in>set (A @ B). header_of l = None"
    and "filter (\<lambda>l. match_throughput l \<noteq> None) B = [throughput_line (d @ ''.'' @ e) x]"
    and "filter (\<lambda>l. match_latency l \<noteq> None) B = [latency_line n (f @ ''.'' @ g) y]"
    and "list_all digits [d, e, n, f, g]"
  shows "\<exists>res. from_output cmd stdout = Some res \<and>
           client_data res =
             \<lparr>throughput = py_float (d @ ''.'' @ e), latency = py_float (f @ ''.'' @ g)\<rparr> \<and>
           server_data res = OmbtData_init"
proof -
  let ?init = "OmbtResults_init cmd"
  from assms(3) have hA: "\<forall>l\<in>set A. header_of l = None"
    and hB: "\<forall>l\<in>set B. header_of l = None" by simp_all
  from assms(6) have dg: "digits d" "digits e" "digits n" "digits f" "digits g"
    by simp_all
  from loop_no_section [OF hA, of ?init] obtain rA
    where rA: "foldl from_output_line (?init, None) A = (rA, None)"
      "server_data rA = server_data ?init" by blast
  have sA: "from_output_line (rA, None) h = (rA, Some Client)"
    using assms(2) by (rule line_header)
  from loop_one_of_each [OF hB assms(4) assms(5)
      match_throughput_line [OF dg(1) dg(2)] match_latency_line [OF dg(3) dg(4) dg(5)],
      of rA Client]
  obtain rB
    where rB: "foldl from_output_line (rA, Some Client) B = (rB, Some Client)"
      "get_data (other_section Client) rB = get_data (other_section Client) rA"
      "get_data Client rB =
         \<lparr>throughput = py_float (d @ ''.'' @ e), latency = py_float (f @ ''.'' @ g)\<rparr>"
    by blast
  have whole: "foldl from_output_line (?init, None) (output_lines stdout) = (rB, Some Client)"
    by (simp add: assms(1) rA(1) sA rB(1))
  have "B \<noteq> []" using assms(4) by auto
  then have "2 \<le> length (output_lines stdout)"
    by (cases B) (simp_all add: assms(1))
  from from_output_Some [OF this, of cmd] whole
  have "from_output cmd stdout = Some rB" by simp
  moreover have "server_data rB = OmbtData_init"
    using rB(2) rA(2) by (simp add: OmbtResults_init_def)
  ultimately show ?thesis using rB(3) by simp
qed

text \<open>
  Claim C7.  Lines before any header set no metric field.  A throughput or latency line
  that follows a header, with no other header in between, sets that field of the section
  the header selects and leaves the other field and the other section as they were.  So
  an output with a client section only, holding one throughput and one latency line,
  yields these numbers as the client metrics and leaves both server metrics at zero.
\<close>

theorem from_output_attribution:
  "((\<forall>l\<in>set A. header_of l = None) \<longrightarrow>
      snd (foldl from_output_line (r, None) A) = None \<and>
      client_data (fst (foldl from_output_line (r, None) A)) = client_data r \<and>
      server_data (fst (foldl from_output_line (r, None) A)) = server_data r) \<and>
   (header_of h = Some s \<and> (\<forall>l\<in>set Q. header_of l = None) \<and>
    header_of m = None \<and> match_throughput m = Some t \<longrightarrow>
      throughput (get_data s (fst (foldl from_output_line st (P @ [h] @ Q @ [m])))) = py_float t \<and>
      latency (get_data s (fst (foldl from_output_line st (P @ [h] @ Q @ [m])))) =
        latency (get_data s (fst (foldl from_output_line st (P @ [h] @ Q)))) \<and>
      get_data (other_section s) (fst (foldl from_output_line st (P @ [h] @ Q @ [m]))) =
        get_data (other_section s) (fst (foldl from_output_line st (P @ [h] @ Q)))) \<and>
   (header_of h = Some s \<and> (\<forall>l\<in>set Q. header_of l = None) \<and>
    header_of m = None \<and> match_latency m = Some t \<longrightarrow>
      latency (get_data s (fst (foldl from_output_line st (P @ [h] @ Q @ [m])))) = py_float t \<and>
      throughput (get_data s (fst (foldl from_output_line st (P @ [h] @ Q @ [m])))) =
        throughput (get_data s (fst (foldl from_output_line st (P @ [h] @ Q)))) \<and>
      get_data (other_section s) (fst (foldl from_output_line st (P @ [h] @ Q @ [m]))) =
        get_data (other_section s) (fst (foldl from_output_line st (P @ [h] @ Q)))) \<and>
   (output_lines stdout = A @ [h] @ B \<and> header_of h = Some Client \<and>
    (\<forall>l\<in>set (A @ B). header_of l = None) \<and>
    filter (\<lambda>l. match_throughput l \<noteq> None) B = [throughput_line (d @ ''.'' @ e) x] \<and>
    filter (\<lambda>l. match_latency l \<noteq> None) B = [latency_line n (f @ ''.'' @ g) y] \<and>
    list_all digits [d, e, n, f, g] \<longrightarrow>
      (\<exists>res. from_output cmd stdout = Some res \<and>
         client_data res =
           \<lparr>throughput = py_float (d @ ''.'' @ e), latency = py_float (f @ ''.'' @ g)\<rparr> \<and>
         server_data res = OmbtData_init))"
proof (intro conjI impI)
  assume "\<forall>l\<in>set A. header_of l = None"
  from before_any_header [OF this, of r]
  show "snd (foldl from_output_line (r, None) A) = None"
    and "client_data (fst (foldl from_output_line (r, None) A)) = client_data r"
    and "server_data (fst (foldl from_output_line (r, None) A)) = server_data r"
    by simp_all
next
  assume a: "header_of h = Some s \<and> (\<forall>l\<in>set Q. header_of l = None) \<and>
    header_of m = None \<and> match_throughput m = Some t"
  then have "header_of h = Some s" "\<forall>l\<in>set Q. header_of l = None"
    "header_of m = None" "match_throughput m = Some t" by simp_all
  from throughput_attributed [OF this, of st P]
  show "throughput (get_data s (fst (foldl from_output_line st (P @ [h] @ Q @ [m])))) = py_float t"
    and "latency (get_data s (fst (foldl from_output_line st (P @ [h] @ Q @ [m])))) =
        latency (get_data s (fst (foldl from_output_line st (P @ [h] @ Q))))"
    and "get_data (other_section s) (fst (foldl from_output_line st (P @ [h] @ Q @ [m]))) =
        get_data (other_section s) (fst (foldl from_output_line st (P @ [h] @ Q)))"
    by simp_all
next
  assume a: "header_of h = Some s \<and> (\<forall>l\<in>set Q. header_of l = None) \<and>
    header_of m = None \<and> match_latency m = Some t"
  then have "header_of h = Some s" "\<forall>l\<in>set Q. header_of l = None"
    "header_of m = None" "match_latency m = Some t" by simp_all
  from latency_attributed [OF this, of st P]
  show "latency (get_data s (fst (foldl from_output_line st (P @ [h] @ Q @ [m])))) = py_float t"
    and "throughput (get_data s (fst (foldl from_output_line st (P @ [h] @ Q @ [m])))) =
        throughput (get_data s (fst (foldl from_output_line st (P @ [h] @ Q))))"
    and "get_data (other_section s) (fst (foldl from_output_line st (P @ [h] @ Q @ [m]))) =
        get_data (other_section s) (fst (foldl from_output_line st (P @ [h] @ Q)))"
    by simp_all
next
  assume a: "output_lines stdout = A @ [h] @ B \<and> header_of h = Some Client \<and>
    (\<forall>l\<in>set (A @ B). header_of l = None) \<and>
    filter (\<lambda>l. match_throughput l \<noteq> None) B = [throughput_line (d @ ''.'' @ e) x] \<and>
    filter (\<lambda>l. match_latency l \<noteq> None) B = [latency_line n (f @ ''.'' @ g) y] \<and>
    list_all digits [d, e, n, f, g]"
  then have "output_lines stdout = A @ [h] @ B" "header_of h = Some Client"
    "\<forall>l\<in>set (A @ B). header_of l = None"
    "filter (\<lambda>l. match_throughput l \<noteq> None) B = [throughput_line (d @ ''.'' @ e) x]"
    "filter (\<lambda>l. match_latency l \<noteq> None) B = [latency_line n (f @ ''.'' @ g) y]"
    "list_all digits [d, e, n, f, g]" by blast+
  from client_section_only [OF this, of cmd]
  show "\<exists>res. from_output cmd stdout = Some res \<and>
         client_data res =
           \<lparr>throughput = py_float (d @ ''.'' @ e), latency = py_float (f @ ''.'' @ g)\<rparr> \<and>
         server_data res = OmbtData_init" .
qed


theorem from_output_attribution_witness:
  "(\<exists>res. from_output NOTIFY client_only_output = Some res \<and>
      client_data res = \<lparr>throughput = 32.5, latency = 5.2\<rparr> \<and>
      server_data res = \<lparr>throughput = 0, latency = 0\<rparr>) \<and>
   client_data (fst (foldl from_output_line (OmbtResults_init NOTIFY, None)
      [''Aggregate throughput: 1.5 msgs/sec''])) = \<lparr>throughput = 0, latency = 0\<rparr> \<and>
   server_data (fst (foldl from_output_line (OmbtResults_init NOTIFY, None)
      [''Aggregate throughput: 1.5 msgs/sec''])) = \<lparr>throughput = 0, latency = 0\<rparr> \<and>
   throughput (get_data Client (fst (foldl from_output_line (OmbtResults_init NOTIFY, None)
      ([] @ [''Aggregated ... Client results:''] @ [] @
       [''Aggregate throughput: 32.5 msgs/sec''])))) = 32.5 \<and>
   latency (get_data Client (fst (foldl from_output_line (OmbtResults_init NOTIFY, None)
      ([] @ [''Aggregated ... Client results:''] @ [] @
       [''Latency 100 samples (msecs): Average 5.2 StdDev 1.1''])))) = 5.2"
proof -
  have a: "\<exists>res. from_output NOTIFY client_only_output = Some res \<and>
         client_data res =
           \<lparr>throughput = py_float (''32'' @ ''.'' @ ''5''), latency = py_float (''5'' @ ''.'' @ ''2'')\<rparr> \<and>
         server_data res = OmbtData_init"
    using from_output_attribution [where stdout = client_only_output and A = "[]"
        and h = "''Aggregated ... Client results:''"
        and B = "[''Aggregate throughput: 32.5 msgs/sec'',
                  ''Latency 100 samples (msecs): Average 5.2 StdDev 1.1'']"
        and d = "''32''" and e = "''5''" and x = "[]"
        and n = "''100''" and f = "''5''" and g = "''2''" and y = "'' 1.1''"
        and cmd = NOTIFY and s = Client and Q = "[]"
        and m = "''Aggregate throughput: 32.5 msgs/sec''" and t = "''32.5''"]
    by (simp add: eval_defs)
  have b: "client_data (fst (foldl from_output_line (OmbtResults_init NOTIFY, None)
      [''Aggregate throughput: 1.5 msgs/sec''])) = client_data (OmbtResults_init NOTIFY) \<and>
   server_data (fst (foldl from_output_line (OmbtResults_init NOTIFY, None)
      [''Aggregate throughput: 1.5 msgs/sec''])) = server_data (OmbtResults_init NOTIFY) \<and>
   throughput (get_data Client (fst (foldl from_output_line (OmbtResults_init NOTIFY, None)
      ([] @ [''Aggregated ... Client results:''] @ [] @
       [''Aggregate throughput: 32.5 msgs/sec''])))) = py_float ''32.5''"
    using from_output_attribution [where A = "[''Aggregate throughput: 1.5 msgs/sec'']"
        and r = "OmbtResults_init NOTIFY" and st = "(OmbtResults_init NOTIFY, None)"
        and P = "[]" and h = "''Aggregated ... Client results:''" and s = Client and Q = "[]"
        and m = "''Aggregate throughput: 32.5 msgs/sec''" and t = "''32.5''"]
    by (simp add: eval_defs)
  have c: "latency (get_data Client (fst (foldl from_output_line (OmbtResults_init NOTIFY, None)
      ([] @ [''Aggregated ... Client results:''] @ [] @
       [''Latency 100 samples (msecs): Average 5.2 StdDev 1.1''])))) = py_float ''5.2''"
    using from_output_attribution [where A = "[]"
        and st = "(OmbtResults_init NOTIFY, None)"
        and P = "[]" and h = "''Aggregated ... Client results:''" and s = Client and Q = "[]"
        and m = "''Latency 100 samples (msecs): Average 5.2 StdDev 1.1''" and t = "''5.2''"]
    by (simp add: eval_defs)
  from a b c show ?thesis
    by (simp add: eval_defs OmbtResults_init_def)
qed

section \<open>Properties of the router data\<close>

lemma json_member_Cons:
  "json_member ((k', v') # kvs) k =
     (case json_member kvs k of None \<Rightarrow> (if k = k' then Some v' else None) | Some v \<Rightarrow> Some v)"
  by (simp add: json_member_def map_add_def split: option.splits)

lemma setattr_plain:
  assumes "plain_name key"
  shows "setattr info key val = Inr (info(key \<mapsto> val))"
  using assms by (simp add: setattr_def plain_name_def)

text \<open>
  With plain names the loop of the constructor raises nothing, and what it builds depends
  on the dictionary of the keyword arguments only, not on the order of its items.
\<close>

lemma setattr_items_plain:
  assumes "list_all plain_name (map fst kvs)"
  shows "setattr_items m kvs =
           Inr (\<lambda>k. case json_member kvs k of None \<Rightarrow> m k | Some v \<Rightarrow> Some v)"
  using assms
proof (induction kvs arbitrary: m)
  case Nil
  then show ?case by (simp add: json_member_def)
next
  case (Cons kv kvs)
  obtain k' v' where kv: "kv = (k', v')" by (cases kv)
  from Cons.prems have p: "plain_name k'" and ps: "list_all plain_name (map fst kvs)"
    by (simp_all add: kv)
  have "setattr_items m (kv # kvs) = setattr_items (m(k' \<mapsto> v')) kvs"
    by (simp add: kv setattr_plain [OF p])
  also have "\<dots> = Inr (\<lambda>k. case json_member kvs k of None \<Rightarrow> (m(k' \<mapsto> v')) k | Some v \<Rightarrow> Some v)"
    by (rule Cons.IH [OF ps])
  also have "(\<lambda>k. case json_member kvs k of None \<Rightarrow> (m(k' \<mapsto> v')) k | Some v \<Rightarrow> Some v) =
             (\<lambda>k. case json_member (kv # kvs) k of None \<Rightarrow> m k | Some v \<Rightarrow> Some v)"
  proof
    fix k
    show "(case json_member kvs k of None \<Rightarrow> (m(k' \<mapsto> v')) k | Some v \<Rightarrow> Some v) =
          (case json_member (kv # kvs) k of None \<Rightarrow> m k | Some v \<Rightarrow> Some v)"
      unfolding kv json_member_Cons by (cases "json_member kvs k") simp_all
  qed
  finally show ?case .
qed

lemma AllocatorInfo_init_plain:
  assumes "list_all plain_name (map fst kvs)"
  shows "AllocatorInfo_init kvs =
           Inr (\<lambda>k. case json_member kvs k of
                       None \<Rightarrow> AllocatorInfo_defaults k
                     | Some v \<Rightarrow> Some v)"
proof -
  from assms have "''self'' \<notin> set (map fst kvs)"
    by (auto simp add: list_all_iff plain_name_def)
  then show ?thesis
    by (simp add: AllocatorInfo_init_def setattr_items_plain [OF assms])
qed

lemma AllocatorInfo_init_get:
  assumes "list_all plain_name (map fst kvs)" and "json_member kvs k = Some v"
  shows "\<exists>info. AllocatorInfo_init kvs = Inr info \<and> info k = Some v"
  using assms by (simp add: AllocatorInfo_init_plain)





text \<open>
  The conditions on the elements are needed: an element without a \<^verbatim>\<open>type\<close> member, an
  element that is no object, and an allocator object with a member named \<^verbatim>\<open>self\<close>,
  \<^verbatim>\<open>__class__\<close> or \<^verbatim>\<open>__weakref__\<close>, or with a name outside ASCII, each make the whole
  call raise, wherever they stand in the array.
\<close>

lemma from_qdmanage_json_out_raises:
  "from_qdmanage_json_out (JArr [sample_allocator allocator_type ''X'', JObj []]) = Inl KeyError"
  "from_qdmanage_json_out (JArr [sample_allocator allocator_type ''X'', JInt 1]) = Inl TypeError"
  "from_qdmanage_json_out
     (JArr [sample_allocator allocator_type ''X'',
            JObj [(''type'', JStr allocator_type), (''self'', JInt 1)]]) = Inl TypeError"
  "from_qdmanage_json_out
     (JArr [JObj [(''type'', JStr allocator_type), (''__class__'', JInt 1)]]) = Inl TypeError"
  "from_qdmanage_json_out
     (JArr [JObj [(''type'', JStr allocator_type), (''__weakref__'', JNull)]]) =
     Inl AttributeError"
  "from_qdmanage_json_out
     (JArr [JObj [(''type'', JStr allocator_type), ([CHR 0xE9], JNull)]]) =
     Inl UnicodeEncodeError"
  by (simp_all add: sample_allocator_def json_member_def allocator_type_def
      AllocatorInfo_init_def setattr_def ascii_name_def AllocatorInfo_defaults_def)

text \<open>
  A member named \<^verbatim>\<open>__dict__\<close> whose value is an object replaces the attributes set before
  it, the defaults among them.
\<close>

lemma AllocatorInfo_init_replaces_dict:
  "\<exists>info. AllocatorInfo_init [(''typeName'', JStr ''qd_link_t''), (''__dict__'', JObj [])] =
            Inr info \<and> info ''typeName'' = None \<and> info ''totalAllocFromHeap'' = None"
  by (simp add: AllocatorInfo_init_def setattr_def ascii_name_def json_member_def)

lemma THRESHOLDS_None_iff:
  "THRESHOLDS name = None \<longleftrightarrow> name \<notin> set (map fst THRESHOLDS_items)"
  by (simp add: THRESHOLDS_def map_of_eq_None_iff)

lemma THRESHOLDS_keys:
  assumes "THRESHOLDS name = Some th"
  shows "set (map fst th) \<subseteq> {''totalAllocFromHeap'', ''heldByThreads''}"
proof -
  from assms have "(name, th) \<in> set (rev THRESHOLDS_items)"
    unfolding THRESHOLDS_def by (rule map_of_SomeD)
  then have "th \<in> set (map snd THRESHOLDS_items)" by force
  moreover have "\<forall>t\<in>set (map snd THRESHOLDS_items).
      set (map fst t) \<subseteq> {''totalAllocFromHeap'', ''heldByThreads''}"
    by (simp add: THRESHOLDS_items_def)
  ultimately show ?thesis by blast
qed

lemma exceeds_loop_returns:
  assumes "\<forall>k\<in>set (map fst th). info k \<noteq> None"
  shows "\<exists>xs. exceeds_loop info th = Inr xs"
  using assms
proof (induction th)
  case Nil
  then show ?case by simp
next
  case (Cons kv th)
  obtain key val where kv: "kv = (key, val)" by (cases kv)
  from Cons.prems obtain cur where cur: "info key = Some cur" by (auto simp add: kv)
  from Cons.IH Cons.prems obtain xs where "exceeds_loop info th = Inr xs" by auto
  with cur show ?case by (simp add: kv)
qed

text \<open>
  An attribute that is set stays set through the loop of the constructor, unless a keyword
  named \<^verbatim>\<open>__dict__\<close> replaces the attribute dictionary; so an instance built without such
  a keyword has the thirteen default attributes.
\<close>

lemma setattr_items_keeps:
  assumes "setattr_items m kvs = Inr info" and "''__dict__'' \<notin> set (map fst kvs)"
    and "m k \<noteq> None"
  shows "info k \<noteq> None"
  using assms
proof (induction kvs arbitrary: m)
  case Nil
  then show ?case by simp
next
  case (Cons kv kvs)
  obtain k' v' where kv: "kv = (k', v')" by (cases kv)
  from Cons.prems(1) obtain m' where m': "setattr m k' v' = Inr m'"
    and rest: "setattr_items m' kvs = Inr info"
    by (cases "setattr m k' v'") (simp_all add: kv)
  from Cons.prems(2) have nd: "k' \<noteq> ''__dict__''" "''__dict__'' \<notin> set (map fst kvs)"
    by (auto simp add: kv)
  from m' nd(1) have "m' = m(k' \<mapsto> v')"
    by (simp add: setattr_def split: if_splits)
  with Cons.prems(3) have "m' k \<noteq> None" by simp
  from Cons.IH [OF rest nd(2) this] show ?case .
qed

lemma AllocatorInfo_init_has_defaults:
  assumes "AllocatorInfo_init kvs = Inr info" and "''__dict__'' \<notin> set (map fst kvs)"
    and "AllocatorInfo_defaults k \<noteq> None"
  shows "info k \<noteq> None"
proof -
  from assms(1) have "setattr_items AllocatorInfo_defaults kvs = Inr info"
    by (simp add: AllocatorInfo_init_def split: if_splits)
  from setattr_items_keeps [OF this assms(2,3)] show ?thesis .
qed

lemma threshold_exceeds_list_not_a_key:
  assumes "info ''typeName'' = Some name"
    and "name \<notin> JStr ` set (map fst THRESHOLDS_items)"
  shows "threshold_exceeds_list info = (if hashable name then Inl AttributeError else Inl TypeError)"
proof (cases name)
  case (JStr n)
  with assms(2) have "THRESHOLDS n = None" by (auto simp add: THRESHOLDS_None_iff)
  with JStr assms(1) show ?thesis by (simp add: threshold_exceeds_list_def)
qed (use assms(1) in \<open>simp_all add: threshold_exceeds_list_def\<close>)

lemma threshold_exceeds_list_returns_only_for_key:
  assumes "threshold_exceeds_list info = Inr xs"
  shows "\<exists>n\<in>set (map fst THRESHOLDS_items). info ''typeName'' = Some (JStr n)"
proof -
  from assms obtain name where name: "info ''typeName'' = Some name"
    by (cases "info ''typeName''") (simp_all add: threshold_exceeds_list_def)
  have "name \<in> JStr ` set (map fst THRESHOLDS_items)"
  proof (rule ccontr)
    assume "name \<notin> JStr ` set (map fst THRESHOLDS_items)"
    from threshold_exceeds_list_not_a_key [of info name, OF name this] assms show False
      by (simp split: if_splits)
  qed
  with name show ?thesis by auto
qed

lemma threshold_exceeds_list_returns_for_key:
  assumes "AllocatorInfo_init kvs = Inr info" and "''__dict__'' \<notin> set (map fst kvs)"
    and "info ''typeName'' = Some (JStr n)" and "n \<in> set (map fst THRESHOLDS_items)"
  shows "\<exists>xs. threshold_exceeds_list info = Inr xs"
proof -
  from assms(4) obtain th where th: "THRESHOLDS n = Some th"
    using THRESHOLDS_None_iff [of n] by (cases "THRESHOLDS n") auto
  have "\<forall>k\<in>set (map fst th). info k \<noteq> None"
  proof
    fix k assume "k \<in> set (map fst th)"
    with THRESHOLDS_keys [OF th] have "k = ''totalAllocFromHeap'' \<or> k = ''heldByThreads''"
      by auto
    then have "AllocatorInfo_defaults k \<noteq> None"
      by (auto simp add: AllocatorInfo_defaults_def)
    with assms(1,2) show "info k \<noteq> None" by (rule AllocatorInfo_init_has_defaults)
  qed
  from exceeds_loop_returns [OF this] th assms(3) show ?thesis
    by (simp add: threshold_exceeds_list_def)
qed

text \<open>
  Claim C10.  For an instance whose \<^verbatim>\<open>typeName\<close> is not a key of \<^verbatim>\<open>THRESHOLDS\<close>,
  \<^verbatim>\<open>threshold_exceeds_list\<close> does not return: the lookup gives \<^verbatim>\<open>None\<close> and the iteration
  over it raises \<^verbatim>\<open>AttributeError\<close> (an unhashable \<^verbatim>\<open>typeName\<close> fails in the lookup
  itself).  A list is returned only when \<^verbatim>\<open>typeName\<close> is one of the keys of the table,
  and for an instance built by the constructor, from keywords none of which is
  \<^verbatim>\<open>__dict__\<close>, it is returned then.
\<close>

theorem threshold_exceeds_list_unknown_type:
  "(info ''typeName'' = Some name \<and> name \<notin> JStr ` set (map fst THRESHOLDS_items) \<longrightarrow>
      threshold_exceeds_list info = (if hashable name then Inl AttributeError else Inl TypeError)) \<and>
   (info ''typeName'' = Some name \<and> hashable name \<and>
    name \<notin> JStr ` set (map fst THRESHOLDS_items) \<longrightarrow>
      THRESHOLDS_get name = Inr None) \<and>
   (threshold_exceeds_list info = Inr xs \<longrightarrow>
      (\<exists>n\<in>set (map fst THRESHOLDS_items). info ''typeName'' = Some (JStr n))) \<and>
   (AllocatorInfo_init kvs = Inr info \<and> ''__dict__'' \<notin> set (map fst kvs) \<and>
    info ''typeName'' = Some (JStr n) \<and> n \<in> set (map fst THRESHOLDS_items) \<longrightarrow>
      (\<exists>ys. threshold_exceeds_list info = Inr ys))"
proof (intro conjI impI)
  assume "info ''typeName'' = Some name \<and> name \<notin> JStr ` set (map fst THRESHOLDS_items)"
  then show "threshold_exceeds_list info =
      (if hashable name then Inl AttributeError else Inl TypeError)"
    using threshold_exceeds_list_not_a_key [of info name] by blast
next
  assume a: "info ''typeName'' = Some name \<and> hashable name \<and>
    name \<notin> JStr ` set (map fst THRESHOLDS_items)"
  show "THRESHOLDS_get name = Inr None"
  proof (cases name)
    case (JStr s)
    with a have "THRESHOLDS s = None" by (auto simp add: THRESHOLDS_None_iff)
    with JStr show ?thesis by simp
  qed (use a in simp_all)
next
  assume "threshold_exceeds_list info = Inr xs"
  then show "\<exists>n\<in>set (map fst THRESHOLDS_items). info ''typeName'' = Some (JStr n)"
    by (rule threshold_exceeds_list_returns_only_for_key)
next
  assume "AllocatorInfo_init kvs = Inr info \<and> ''__dict__'' \<notin> set (map fst kvs) \<and>
    info ''typeName'' = Some (JStr n) \<and> n \<in> set (map fst THRESHOLDS_items)"
  then show "\<exists>ys. threshold_exceeds_list info = Inr ys"
    using threshold_exceeds_list_returns_for_key [of kvs info n] by blast
qed

lemma sample_info_init:
  "AllocatorInfo_init [(''typeName'', JStr name), (''totalAllocFromHeap'', JInt k)] =
     Inr (sample_info name k)"
  by (simp add: AllocatorInfo_init_def setattr_def ascii_name_def sample_info_def)

theorem threshold_exceeds_list_unknown_type_witness:
  "AllocatorInfo_init [(''typeName'', JStr ''qd_link_t''), (''totalAllocFromHeap'', JInt 1000)] =
     Inr (sample_info ''qd_link_t'' 1000) \<and>
   ''__dict__'' \<notin> set (map fst [(''typeName'', JStr ''qd_link_t''),
                                   (''totalAllocFromHeap'', JInt 1000)]) \<and>
   sample_info ''X'' 10 ''typeName'' = Some (JStr ''X'') \<and>
   JStr ''X'' \<notin> JStr ` set (map fst THRESHOLDS_items) \<and>
   threshold_exceeds_list (sample_info ''X'' 10) = Inl AttributeError \<and>
   THRESHOLDS_get (JStr ''X'') = Inr None \<and>
   ''qd_link_t'' \<in> set (map fst THRESHOLDS_items) \<and>
   (\<exists>ys. threshold_exceeds_list (sample_info ''qd_link_t'' 1000) = Inr ys) \<and>
   threshold_exceeds_list (sample_info ''qd_link_t'' 1000) =
     Inr [(''totalAllocFromHeap'', JInt 1000, 768)]"
proof -
  have a: "sample_info ''X'' 10 ''typeName'' = Some (JStr ''X'')"
    and b: "JStr ''X'' \<notin> JStr ` set (map fst THRESHOLDS_items)"
    and c: "''qd_link_t'' \<in> set (map fst THRESHOLDS_items)"
    and d: "sample_info ''qd_link_t'' 1000 ''typeName'' = Some (JStr ''qd_link_t'')"
    by (simp_all add: sample_info_def THRESHOLDS_items_def)
  have e: "threshold_exceeds_list (sample_info ''qd_link_t'' 1000) =
     Inr [(''totalAllocFromHeap'', JInt 1000, 768)]"
    by (simp add: threshold_exceeds_list_def THRESHOLDS_def THRESHOLDS_items_def
        sample_info_def AllocatorInfo_defaults_def)
  from threshold_exceeds_list_unknown_type [of "sample_info ''X'' 10" "JStr ''X''"
      "[(''totalAllocFromHeap'', JInt 1000, 768)]"
      "[(''typeName'', JStr ''qd_link_t''), (''totalAllocFromHeap'', JInt 1000)]"
      "''qd_link_t''"]
    threshold_exceeds_list_unknown_type [of "sample_info ''qd_link_t'' 1000" "JStr ''qd_link_t''"
      "[(''totalAllocFromHeap'', JInt 1000, 768)]"
      "[(''typeName'', JStr ''qd_link_t''), (''totalAllocFromHeap'', JInt 1000)]"
      "''qd_link_t''"]
    a b c d e sample_info_init [of "''qd_link_t''" 1000]
  show ?thesis by simp
qed

end
